theory Spec2Isabelle
  imports Main "HOL-Library.Word" "HOL-Library.Multiset"
begin

section \<open>The parsed description (input of hub3/ead/ead.go)\<close>

text \<open>
  The structs of package ead are declared in another file of the package; the records
  below carry exactly the fields that ead.go reads, under the names it reads them by.
  Fields with the same Go name in different structs are told apart by the record name
  (\<open>Cunitid.ID\<close>, \<open>NodeID.ID\<close>, \<open>Header.ID\<close>). The pointer fields that ead.go tests
  against nil (\<open>Cphysdesc\<close>, \<open>Cscopecontent\<close>) are options; the fields it dereferences
  without a test (\<open>Cdid\<close>, the elements of the lists) are values, so a description with a
  nil pointer there, on which the Go code panics, is not an input of the model. The
  twelve level structs \<open>Cc01\<close> .. \<open>Cc12\<close> expose the same fields, so one recursive type
  \<open>Clevel\<close> stands for all of them, and the model accepts nestings of any depth. The
  payload \<open>Cp\<close> of a scope-content block is only handed to xml.Marshal, so its type is a
  parameter.
\<close>

record Cunitid =
  ID :: string
  Attridentifier :: string
  Attrtype :: string
  Attraudience :: string

record Cunitdate =
  Attrcalendar :: string
  Attrera :: string
  Attrnormal :: string
  Date :: string

record Cunittitle =
  Title :: string
  Cunitdate :: "Cunitdate list"

record Cphysdesc =
  PhyscDesc :: string

record Cdid =
  Cphysdesc :: "Cphysdesc option"
  Cunittitle :: "Cunittitle list"
  Cunitdate :: "Cunitdate list"
  Cunitid :: "Cunitid list"

record 'p Cscopecontent =
  Cp :: 'p

record Name =
  Space :: string
  Local :: string

datatype 'p Clevel =
  Clevel (XMLName: Name) (Attrlevel: string) (Attrotherlevel: string) (Cdid: Cdid)
    (Cscopecontent: "'p Cscopecontent option") (Nested: "'p Clevel list")

record Chead =
  Head :: string

record 'p Cdsc =
  Attrtype :: string
  Chead :: "Chead list"
  Nested :: "'p Clevel list"

section \<open>The produced nodes\<close>

record NodeID =
  ID :: string
  TypeID :: string
  Type :: string
  Audience :: string

record NodeDate =
  Calendar :: string
  Era :: string
  Normal :: string
  Label :: string

record Header =
  Physdesc :: string
  DateAsLabel :: bool
  Label :: "string list"
  Date :: "NodeDate list"
  InventoryNumber :: string
  ID :: "NodeID list"

text \<open>
  A Go slice of strings is a header (backing array, length, capacity); every slice of
  ead.go starts at index 0 of its array. The nil slice has length and capacity 0. The
  backing arrays live in a store, a list of arrays indexed by their address; an array has
  as many cells as its capacity.
\<close>

datatype slice = Slice (arr: nat) (len: nat) (cap: nat)

type_synonym heap = "string list list"

datatype Node =
  Node (CTag: string) (Depth: "32 word") (Type: string) (SubType: string)
    (ParentIDs: slice) (Order: "64 word") (Header: Header) (HTML: string)
    (Nodes: "Node list")

record NodeList =
  Type :: string
  Label :: "string list"
  Nodes :: "Node list"

datatype error = Error string

section \<open>Go slices\<close>

definition nil_slice :: slice where
  "nil_slice = Slice 0 0 0"

text \<open>
  The composite literal \<open>[]string{x1, .., xn}\<close>: a fresh array of exactly n
  cells.
\<close>

definition slice_lit :: "string list \<Rightarrow> heap \<Rightarrow> slice \<times> heap" where
  "slice_lit xs h = (Slice (length h) (length xs) (length xs), h @ [xs])"

text \<open>
  \<open>append(s, x)\<close>: with spare capacity the element is written into the backing array of
  \<open>s\<close>, in place; otherwise a larger array is allocated, the elements of \<open>s\<close> are copied
  and the rest is zeroed. The capacity of the new array is chosen by the Go runtime; the
  policy \<open>growcap\<close> (old capacity to new capacity) is a parameter, and the new array always
  has room for the appended element.
\<close>

definition go_append :: "(nat \<Rightarrow> nat) \<Rightarrow> slice \<Rightarrow> string \<Rightarrow> heap \<Rightarrow> slice \<times> heap" where
  "go_append growcap s x h =
     (if len s < cap s
      then (Slice (arr s) (Suc (len s)) (cap s), h[arr s := (h ! arr s)[len s := x]])
      else (let newcap = max (Suc (len s)) (growcap (cap s))
            in (Slice (length h) (Suc (len s)) newcap,
                h @ [take (len s) (h ! arr s) @ x # replicate (newcap - Suc (len s)) ''''])))"

text \<open>
  The policy of the Go runtime (growslice) for the capacities that occur here: a slice of
  fewer than 256 elements doubles, and for string elements the doubled sizes are
  allocation size classes, so nothing is rounded.
\<close>

definition go_growcap :: "nat \<Rightarrow> nat" where
  "go_growcap oldcap = (if oldcap = 0 then 1 else 2 * oldcap)"

text \<open>The elements of a slice, read through the store.\<close>

definition slice_elems :: "heap \<Rightarrow> slice \<Rightarrow> string list" where
  "slice_elems h s = take (len s) (h ! arr s)"

section \<open>Header resolution\<close>

definition NewNodeID :: "Cunitid \<Rightarrow> error + NodeID" where
  "NewNodeID ui =
     Inr \<lparr>NodeID.ID = Cunitid.ID ui, TypeID = Attridentifier ui,
          NodeID.Type = Cunitid.Attrtype ui, Audience = Attraudience ui\<rparr>"

text \<open>The case list of the switch in NewNodeIDs.\<close>

definition inventory_type :: "string \<Rightarrow> bool" where
  "inventory_type t \<longleftrightarrow> t = ''ABS'' \<or> t = ''series_code'' \<or> t = ''''"

text \<open>The loop of NewNodeIDs, with the two variables it updates.\<close>

fun NewNodeIDs_loop ::
  "bool \<Rightarrow> Cunitid list \<Rightarrow> NodeID list \<Rightarrow> string \<Rightarrow> error + (NodeID list \<times> string)" where
  "NewNodeIDs_loop sparse [] ids invertoryNumber = Inr (ids, invertoryNumber)"
| "NewNodeIDs_loop sparse (unitid # rest) ids invertoryNumber =
     (case NewNodeID unitid of
        Inl err \<Rightarrow> Inl err
      | Inr id' \<Rightarrow>
          NewNodeIDs_loop sparse rest
            (if \<not> sparse then ids @ [id'] else ids)
            (if inventory_type (NodeID.Type id') then NodeID.ID id' else invertoryNumber))"

definition NewNodeIDs :: "Cdid \<Rightarrow> bool \<Rightarrow> error + (NodeID list \<times> string)" where
  "NewNodeIDs cdid sparse = NewNodeIDs_loop sparse (Cunitid cdid) [] ''''"

definition NewNodeDate :: "Cunitdate \<Rightarrow> error + NodeDate" where
  "NewNodeDate date =
     Inr \<lparr>Calendar = Attrcalendar date, Era = Attrera date, Normal = Attrnormal date,
          NodeDate.Label = Cunitdate.Date date\<rparr>"

text \<open>The inner loop of NewHeader over the dates nested in one title.\<close>

fun title_dates_loop :: "bool \<Rightarrow> Cunitdate list \<Rightarrow> Header \<Rightarrow> error + Header" where
  "title_dates_loop sparse [] header = Inr header"
| "title_dates_loop sparse (date # rest) header =
     (case NewNodeDate date of
        Inl err \<Rightarrow> Inl err
      | Inr nodeDate \<Rightarrow>
          title_dates_loop sparse rest
            (if sparse
             then header\<lparr>Header.Label := Header.Label header @ [NodeDate.Label nodeDate],
                         DateAsLabel := False\<rparr>
             else header\<lparr>Header.Date := Header.Date header @ [nodeDate]\<rparr>))"

text \<open>The loop of NewHeader over the titles.\<close>

fun titles_loop :: "bool \<Rightarrow> Cunittitle list \<Rightarrow> Header \<Rightarrow> error + Header" where
  "titles_loop sparse [] header = Inr header"
| "titles_loop sparse (label # rest) header =
     (if length (Cunittitle.Cunitdate label) \<noteq> 0
      then (case title_dates_loop sparse (Cunittitle.Cunitdate label)
                    (header\<lparr>DateAsLabel := True\<rparr>) of
              Inl err \<Rightarrow> Inl err
            | Inr header' \<Rightarrow> titles_loop sparse rest header')
      else titles_loop sparse rest
             (header\<lparr>Header.Label := Header.Label header @ [Title label]\<rparr>))"

text \<open>The loop of NewHeader over the direct dates (full mode only).\<close>

fun dates_loop :: "Cunitdate list \<Rightarrow> Header \<Rightarrow> error + Header" where
  "dates_loop [] header = Inr header"
| "dates_loop (date # rest) header =
     (case NewNodeDate date of
        Inl err \<Rightarrow> Inl err
      | Inr nodeDate \<Rightarrow>
          dates_loop rest (header\<lparr>Header.Date := Header.Date header @ [nodeDate]\<rparr>))"

definition empty_Header :: Header where
  "empty_Header =
     \<lparr>Physdesc = '''', DateAsLabel = False, Header.Label = [], Header.Date = [],
      InventoryNumber = '''', Header.ID = []\<rparr>"

definition NewHeader :: "Cdid \<Rightarrow> bool \<Rightarrow> error + Header" where
  "NewHeader cdid sparse =
     (let header = empty_Header;
          header = (case Cphysdesc cdid of
                      Some physdesc \<Rightarrow>
                        if \<not> sparse then header\<lparr>Physdesc := PhyscDesc physdesc\<rparr> else header
                    | None \<Rightarrow> header)
      in case titles_loop sparse (Cunittitle cdid) header of
           Inl err \<Rightarrow> Inl err
         | Inr header \<Rightarrow>
             (case (if \<not> sparse then dates_loop (Cdid.Cunitdate cdid) header else Inr header) of
                Inl err \<Rightarrow> Inl err
              | Inr header \<Rightarrow>
                  (case NewNodeIDs cdid sparse of
                     Inl err \<Rightarrow> Inl err
                   | Inr (nodeIDs, inventoryID) \<Rightarrow>
                       (let header = (if inventoryID \<noteq> ''''
                                      then header\<lparr>InventoryNumber := inventoryID\<rparr>
                                      else header)
                        in Inr (header\<lparr>Header.ID := Header.ID header @ nodeIDs\<rparr>)))))"

section \<open>The recursive descent\<close>

text \<open>
  The run's state is the counter (a uint64, advanced by \<open>atomic.AddUint64\<close>) and the
  store of backing arrays. \<open>marshal\<close> stands for \<open>xml.Marshal\<close> followed by the
  conversion of its bytes to a string. \<open>NewNode\<close> is the method of \<open>Cc02\<close> .. \<open>Cc12\<close>
  (one text, twelve receivers); \<open>NewNode_nested\<close> is its loop over \<open>c.Nested\<close>, with
  \<open>node.Nodes\<close> as accumulator.
\<close>

type_synonym state = "64 word \<times> heap"

fun NewNode ::
    "('p \<Rightarrow> error + string) \<Rightarrow> (nat \<Rightarrow> nat) \<Rightarrow> 'p Clevel \<Rightarrow> slice \<Rightarrow> bool \<Rightarrow> state
       \<Rightarrow> error + (Node \<times> state)"
  and NewNode_nested ::
    "('p \<Rightarrow> error + string) \<Rightarrow> (nat \<Rightarrow> nat) \<Rightarrow> 'p Clevel list \<Rightarrow> slice \<Rightarrow> bool \<Rightarrow> state
       \<Rightarrow> Node list \<Rightarrow> error + (Node list \<times> state)" where
  "NewNode marshal growcap (Clevel xmlname attrlevel attrotherlevel cdid cscopecontent nested)
       parentIDs sparse (counter, h) =
     (let counter = counter + 1;
          ctag = (if sparse then '''' else Local xmlname);
          depth = (word_of_nat (len parentIDs + 1) :: 32 word);
          order = counter
      in case NewHeader cdid sparse of
           Inl err \<Rightarrow> Inl err
         | Inr header \<Rightarrow>
             (case (case cscopecontent of
                      Some sc \<Rightarrow> if \<not> sparse then marshal (Cp sc) else Inr ''''
                    | None \<Rightarrow> Inr '''') of
                Inl err \<Rightarrow> Inl err
              | Inr html \<Rightarrow>
                  (case go_append growcap parentIDs (InventoryNumber header) h of
                     (parentIDs', h') \<Rightarrow>
                       (case (if length nested \<noteq> 0
                              then NewNode_nested marshal growcap nested parentIDs' sparse
                                     (counter, h') []
                              else Inr ([], (counter, h'))) of
                          Inl err \<Rightarrow> Inl err
                        | Inr (nodes, st) \<Rightarrow>
                            Inr (Node ctag depth attrlevel attrotherlevel parentIDs order
                                   header html nodes, st)))))"
| "NewNode_nested marshal growcap [] parentIDs sparse st nodes = Inr (nodes, st)"
| "NewNode_nested marshal growcap (nn # rest) parentIDs sparse st nodes =
     (case NewNode marshal growcap nn parentIDs sparse st of
        Inl err \<Rightarrow> Inl err
      | Inr (n, st') \<Rightarrow> NewNode_nested marshal growcap rest parentIDs sparse st' (nodes @ [n]))"

text \<open>
  \<open>Cc01.NewNode\<close>: depth 1, no parent identifiers (\<open>ParentIDs\<close> stays nil), and the
  children receive the fresh one-element slice \<open>[]string{header.GetInventoryNumber()}\<close>.
\<close>

fun Cc01_NewNode ::
    "('p \<Rightarrow> error + string) \<Rightarrow> (nat \<Rightarrow> nat) \<Rightarrow> 'p Clevel \<Rightarrow> bool \<Rightarrow> state
       \<Rightarrow> error + (Node \<times> state)" where
  "Cc01_NewNode marshal growcap (Clevel xmlname attrlevel attrotherlevel cdid cscopecontent nested)
       sparse (counter, h) =
     (let counter = counter + 1;
          ctag = (if sparse then '''' else Local xmlname);
          depth = (1 :: 32 word);
          order = counter
      in case NewHeader cdid sparse of
           Inl err \<Rightarrow> Inl err
         | Inr header \<Rightarrow>
             (case (case cscopecontent of
                      Some sc \<Rightarrow> if \<not> sparse then marshal (Cp sc) else Inr ''''
                    | None \<Rightarrow> Inr '''') of
                Inl err \<Rightarrow> Inl err
              | Inr html \<Rightarrow>
                  (case slice_lit [InventoryNumber header] h of
                     (parentIDS, h') \<Rightarrow>
                       (case (if length nested \<noteq> 0
                              then NewNode_nested marshal growcap nested parentIDS sparse
                                     (counter, h') []
                              else Inr ([], (counter, h'))) of
                          Inl err \<Rightarrow> Inl err
                        | Inr (nodes, st) \<Rightarrow>
                            Inr (Node ctag depth attrlevel attrotherlevel nil_slice order
                                   header html nodes, st)))))"

section \<open>The top-level conversion\<close>

text \<open>
  The loop of newSparseNodeList over \<open>dsc.Nested\<close>, with
  \<open>nl.Nodes\<close> as accumulator.
\<close>

fun dsc_loop ::
    "('p \<Rightarrow> error + string) \<Rightarrow> (nat \<Rightarrow> nat) \<Rightarrow> 'p Clevel list \<Rightarrow> bool \<Rightarrow> state
       \<Rightarrow> Node list \<Rightarrow> error + (Node list \<times> state)" where
  "dsc_loop marshal growcap [] sparse st nodes = Inr (nodes, st)"
| "dsc_loop marshal growcap (nn # rest) sparse st nodes =
     (case Cc01_NewNode marshal growcap nn sparse st of
        Inl err \<Rightarrow> Inl err
      | Inr (node, st') \<Rightarrow> dsc_loop marshal growcap rest sparse st' (nodes @ [node]))"

text \<open>
  The result is the node list, the counter and, since the nodes hold slices, the store
  through which their \<open>ParentIDs\<close> are read. The run starts with a counter of 0; the store
  of the model starts empty (arrays allocated before the run are not reachable from it).
\<close>

definition newSparseNodeList ::
    "('p \<Rightarrow> error + string) \<Rightarrow> (nat \<Rightarrow> nat) \<Rightarrow> 'p Cdsc \<Rightarrow> bool
       \<Rightarrow> error + (NodeList \<times> 64 word \<times> heap)" where
  "newSparseNodeList marshal growcap dsc sparse =
     (let label = foldl (\<lambda>l label. l @ [Head label]) [] (Chead dsc)
      in case dsc_loop marshal growcap (Cdsc.Nested dsc) sparse (0, []) [] of
           Inl err \<Rightarrow> Inl err
         | Inr (nodes, (counter, h)) \<Rightarrow>
             Inr (\<lparr>NodeList.Type = Cdsc.Attrtype dsc, NodeList.Label = label,
                   NodeList.Nodes = nodes\<rparr>, counter, h))"

definition NewNodeList ::
    "('p \<Rightarrow> error + string) \<Rightarrow> (nat \<Rightarrow> nat) \<Rightarrow> 'p Cdsc \<Rightarrow> error + (NodeList \<times> 64 word \<times> heap)" where
  "NewNodeList marshal growcap dsc = newSparseNodeList marshal growcap dsc False"

definition NewSparseNodeList ::
    "('p \<Rightarrow> error + string) \<Rightarrow> (nat \<Rightarrow> nat) \<Rightarrow> 'p Cdsc \<Rightarrow> error + (NodeList \<times> 64 word \<times> heap)" where
  "NewSparseNodeList marshal growcap dsc = newSparseNodeList marshal growcap dsc True"

section \<open>Notions the claims are stated with\<close>

text \<open>
  The nodes of a subtree in pre-order: the node, then the subtrees of its children from
  left to right.
\<close>

fun nodes_preorder :: "Node \<Rightarrow> Node list" where
  "nodes_preorder (Node ctag depth type subtype parentIDs order header html nodes) =
     Node ctag depth type subtype parentIDs order header html nodes
       # concat (map nodes_preorder nodes)"

text \<open>The nodes below a list of siblings, in pre-order.\<close>

definition preorder_list :: "Node list \<Rightarrow> Node list" where
  "preorder_list ns = concat (map nodes_preorder ns)"

text \<open>The components of the input below one component, in pre-order.\<close>

fun levels_preorder :: "'p Clevel \<Rightarrow> 'p Clevel list" where
  "levels_preorder (Clevel xmlname attrlevel attrotherlevel cdid cscopecontent nested) =
     Clevel xmlname attrlevel attrotherlevel cdid cscopecontent nested
       # concat (map levels_preorder nested)"

text \<open>
  The components below a list of sibling components, in pre-order; its length is the
  number of components.
\<close>

definition levels_list :: "'p Clevel list \<Rightarrow> 'p Clevel list" where
  "levels_list cs = concat (map levels_preorder cs)"

text \<open>
  Below a list of siblings, every node of an earlier sibling's subtree has a smaller order
  than every node of a later sibling's subtree.
\<close>

fun siblings_ordered :: "Node list \<Rightarrow> bool" where
  "siblings_ordered [] = True"
| "siblings_ordered (n # ns) =
     ((\<forall>a\<in>set (nodes_preorder n). \<forall>b\<in>set (preorder_list ns). Order a < Order b) \<and>
      siblings_ordered ns)"

text \<open>
  What the two modes are compared on: order, depth, the parent identifiers as a list of
  strings, level type, level subtype, inventory number, and the same for the children.
\<close>

datatype Skeleton =
  Skeleton (sk_order: "64 word") (sk_depth: "32 word") (sk_parentChain: "string list")
    (sk_type: string) (sk_subtype: string) (sk_inventoryNumber: string)
    (sk_children: "Skeleton list")

text \<open>
  The skeleton of a node, its \<open>ParentIDs\<close> read through the store
  \<open>h\<close>.
\<close>

fun skeleton :: "heap \<Rightarrow> Node \<Rightarrow> Skeleton" where
  "skeleton h (Node ctag depth type subtype parentIDs order header html nodes) =
     Skeleton order depth (slice_elems h parentIDs) type subtype (InventoryNumber header)
       (map (skeleton h) nodes)"

text \<open>The skeletons of the root nodes of a result, with the count.\<close>

definition result_skeleton ::
    "error + (NodeList \<times> 64 word \<times> heap) \<Rightarrow> error + (Skeleton list \<times> 64 word)" where
  "result_skeleton r =
     (case r of
        Inl err \<Rightarrow> Inl err
      | Inr (nl, totalNodeCount, h) \<Rightarrow> Inr (map (skeleton h) (NodeList.Nodes nl), totalNodeCount))"

text \<open>\<open>marshal\<close> fails on the scope-content block of a component.\<close>

definition marshal_fails :: "('p \<Rightarrow> error + string) \<Rightarrow> 'p Clevel \<Rightarrow> bool" where
  "marshal_fails marshal c \<longleftrightarrow>
     (case Cscopecontent c of Some sc \<Rightarrow> isl (marshal (Cp sc)) | None \<Rightarrow> False)"

text \<open>
  \<open>marshal\<close> fails with \<open>err\<close> on the scope-content block of a
  component.
\<close>

definition marshal_error :: "('p \<Rightarrow> error + string) \<Rightarrow> 'p Clevel \<Rightarrow> error \<Rightarrow> bool" where
  "marshal_error marshal c err \<longleftrightarrow>
     (case Cscopecontent c of Some sc \<Rightarrow> marshal (Cp sc) = Inl err | None \<Rightarrow> False)"

section \<open>Notions of the proofs\<close>

text \<open>
  The scope-content step of \<open>NewNode\<close> (\<open>if c.Cscopecontent != nil &&
  !sparse\<close>), as one function: the markup or the error.
\<close>

definition scope_html :: "('p \<Rightarrow> error + string) \<Rightarrow> 'p Cscopecontent option \<Rightarrow> bool \<Rightarrow> error + string" where
  "scope_html marshal cscopecontent sparse =
     (case cscopecontent of
        Some sc \<Rightarrow> if \<not> sparse then marshal (Cp sc) else Inr ''''
      | None \<Rightarrow> Inr '''')"

text \<open>
  A run from counter value \<open>fst st\<close> numbers the nodes of the subtree it
  builds, in pre-order, from \<open>fst st + 1\<close> on, and leaves the counter advanced
  by the number of components.
\<close>

definition order_of_node :: "'p Clevel \<Rightarrow> slice \<Rightarrow> state \<Rightarrow> Node \<Rightarrow> state \<Rightarrow> bool" where
  "order_of_node c parentIDs st n st' \<longleftrightarrow>
     map Order (nodes_preorder n) =
       map (\<lambda>i. fst st + 1 + of_nat i) [0..<length (levels_preorder c)] \<and>
     fst st' = fst st + of_nat (length (levels_preorder c))"

text \<open>The same for a list of siblings.\<close>

definition order_of_nodes :: "'p Clevel list \<Rightarrow> slice \<Rightarrow> state \<Rightarrow> Node list \<Rightarrow> state \<Rightarrow> bool" where
  "order_of_nodes cs parentIDs st ns st' \<longleftrightarrow>
     map Order (preorder_list ns) =
       map (\<lambda>i. fst st + 1 + of_nat i) [0..<length (levels_list cs)] \<and>
     fst st' = fst st + of_nat (length (levels_list cs))"

text \<open>
  A slice is well-formed in a store: its length is within its capacity, and unless the
  capacity is 0 its array is allocated with exactly that many cells.
\<close>

definition wf_slice :: "heap \<Rightarrow> slice \<Rightarrow> bool" where
  "wf_slice h s \<longleftrightarrow>
     len s \<le> cap s \<and> (cap s = 0 \<or> (arr s < length h \<and> length (h ! arr s) = cap s))"

text \<open>The store only grows: arrays are added, and no array changes its number of cells.\<close>

definition heap_le :: "heap \<Rightarrow> heap \<Rightarrow> bool" where
  "heap_le h h' \<longleftrightarrow> length h \<le> length h' \<and> (\<forall>a<length h. length (h' ! a) = length (h ! a))"

text \<open>The \<open>ParentIDs\<close> of every node below a list of siblings are well-formed.\<close>

definition slices_wf :: "heap \<Rightarrow> Node list \<Rightarrow> bool" where
  "slices_wf h ns \<longleftrightarrow> (\<forall>x\<in>set (preorder_list ns). wf_slice h (ParentIDs x))"

text \<open>
  The outcome of a run over the components \<open>cs\<close>: an error is the error of the
  scope-content step of one of them, and a success means that step succeeds in all of
  them.
\<close>

definition outcome ::
  "('p \<Rightarrow> error + string) \<Rightarrow> bool \<Rightarrow> 'p Clevel list \<Rightarrow> error + 'a \<Rightarrow> bool" where
  "outcome marshal sparse cs r \<longleftrightarrow>
     (case r of
        Inl err \<Rightarrow> \<exists>x\<in>set cs. scope_html marshal (Cscopecontent x) sparse = Inl err
      | Inr v \<Rightarrow> \<forall>x\<in>set cs. \<not> isl (scope_html marshal (Cscopecontent x) sparse))"

section \<open>Example inputs\<close>

text \<open>An identifier of the given type and value.\<close>

definition unitid :: "string \<Rightarrow> string \<Rightarrow> Cunitid" where
  "unitid type ident =
     \<lparr>Cunitid.ID = ident, Attridentifier = '''', Cunitid.Attrtype = type, Attraudience = ''''\<rparr>"

text \<open>An identification block with nothing but identifiers.\<close>

definition did_of_ids :: "Cunitid list \<Rightarrow> Cdid" where
  "did_of_ids ids = \<lparr>Cphysdesc = None, Cunittitle = [], Cdid.Cunitdate = [], Cunitid = ids\<rparr>"

text \<open>A date with the given label.\<close>

definition unitdate :: "string \<Rightarrow> Cunitdate" where
  "unitdate label =
     \<lparr>Attrcalendar = ''gregorian'', Attrera = ''ce'', Attrnormal = label, Cunitdate.Date = label\<rparr>"

text \<open>
  An identification block with a dated title, a plain title, a direct date, a physical
  description and two identifiers.
\<close>

definition did_1900 :: Cdid where
  "did_1900 =
     \<lparr>Cphysdesc = Some \<lparr>PhyscDesc = ''1 box''\<rparr>,
      Cunittitle = [\<lparr>Title = ''Minutes'', Cunittitle.Cunitdate = [unitdate ''1900'']\<rparr>,
                    \<lparr>Title = ''Letters'', Cunittitle.Cunitdate = []\<rparr>],
      Cdid.Cunitdate = [unitdate ''1901''],
      Cunitid = [unitid ''ABS'' ''A1'', unitid ''other'' ''O1'']\<rparr>"

text \<open>An identification block with one plain title and the given identifiers.\<close>

definition title_did :: "string \<Rightarrow> Cunitid list \<Rightarrow> Cdid" where
  "title_did title ids =
     \<lparr>Cphysdesc = None, Cunittitle = [\<lparr>Title = title, Cunittitle.Cunitdate = []\<rparr>],
      Cdid.Cunitdate = [], Cunitid = ids\<rparr>"

text \<open>A description with two root labels and no components.\<close>

definition dsc_empty :: "string Cdsc" where
  "dsc_empty =
     \<lparr>Cdsc.Attrtype = ''combined'', Chead = [\<lparr>Head = ''Inventory''\<rparr>, \<lparr>Head = ''Series''\<rparr>],
      Cdsc.Nested = []\<rparr>"

text \<open>
  The two-level description: a series titled Letters, identifier S1 of type ABS, with a
  scope-content block, containing one file titled Letter 1 without identifiers.
\<close>

definition letters_dsc :: "string Cdsc" where
  "letters_dsc =
     \<lparr>Cdsc.Attrtype = ''combined'', Chead = [\<lparr>Head = ''Inventory''\<rparr>],
      Cdsc.Nested =
        [Clevel \<lparr>Space = '''', Local = ''c01''\<rparr> ''series'' ''''
           (title_did ''Letters'' [unitid ''ABS'' ''S1''])
           (Some \<lparr>Cp = ''<p>Family letters</p>''\<rparr>)
           [Clevel \<lparr>Space = '''', Local = ''c02''\<rparr> ''file'' ''''
              (title_did ''Letter 1'' []) None []]]\<rparr>"

text \<open>
  A single component with the rich identification block \<open>did_1900\<close> and a
  scope-content block.
\<close>

definition minutes_dsc :: "string Cdsc" where
  "minutes_dsc =
     \<lparr>Cdsc.Attrtype = ''combined'', Chead = [],
      Cdsc.Nested =
        [Clevel \<lparr>Space = '''', Local = ''c01''\<rparr> ''fonds'' '''' did_1900
           (Some \<lparr>Cp = ''<p>Minutes and letters</p>''\<rparr>) []]\<rparr>"

text \<open>A serializer that fails on one payload.\<close>

definition marshal_example :: "string \<Rightarrow> error + string" where
  "marshal_example p = (if p = ''<bad>'' then Inl (Error ''xml: unsupported type'') else Inr p)"

text \<open>A series with two files; the scope content of the first file cannot be serialized.\<close>

definition broken_dsc :: "string Cdsc" where
  "broken_dsc =
     \<lparr>Cdsc.Attrtype = ''combined'', Chead = [],
      Cdsc.Nested =
        [Clevel \<lparr>Space = '''', Local = ''c01''\<rparr> ''series'' ''''
           (title_did ''Letters'' [unitid ''ABS'' ''S1'']) (Some \<lparr>Cp = ''<p>fine</p>''\<rparr>)
           [Clevel \<lparr>Space = '''', Local = ''c02''\<rparr> ''file'' ''''
              (title_did ''Letter 1'' []) (Some \<lparr>Cp = ''<bad>''\<rparr>) [],
            Clevel \<lparr>Space = '''', Local = ''c02''\<rparr> ''file'' ''''
              (title_did ''Letter 2'' []) None []]]\<rparr>"

text \<open>A component with the given tag, one title and one identifier of type ABS.\<close>

definition level :: "string \<Rightarrow> string \<Rightarrow> string Clevel list \<Rightarrow> string Clevel" where
  "level tag ident nested =
     Clevel \<lparr>Space = '''', Local = tag\<rparr> ''file'' '''' (title_did tag [unitid ''ABS'' ident])
       None nested"

text \<open>Five levels: A > B > X > (P > Z, Q).\<close>

definition aliasing_dsc :: "string Cdsc" where
  "aliasing_dsc =
     \<lparr>Cdsc.Attrtype = ''combined'', Chead = [],
      Cdsc.Nested =
        [level ''c01'' ''A''
          [level ''c02'' ''B''
            [level ''c03'' ''X''
              [level ''c04'' ''P'' [level ''c05'' ''Z'' []],
               level ''c04'' ''Q'' []]]]]\<rparr>"

section \<open>Header resolution: closed forms of the loops\<close>

lemma NewNodeIDs_loop_eq:
  "NewNodeIDs_loop sparse us ids ident =
     Inr (if sparse then ids
          else ids @ map (\<lambda>u. \<lparr>NodeID.ID = Cunitid.ID u, TypeID = Attridentifier u,
                 NodeID.Type = Cunitid.Attrtype u, Audience = Attraudience u\<rparr>) us,
          if filter (\<lambda>u. inventory_type (Cunitid.Attrtype u)) us = [] then ident
          else Cunitid.ID (last (filter (\<lambda>u. inventory_type (Cunitid.Attrtype u)) us)))"
proof (induction us arbitrary: ids ident)
  case Nil
  show ?case by simp
next
  case (Cons u us)
  show ?case
    by (simp add: Cons.IH NewNodeID_def)
qed

lemma title_dates_loop_eq:
  "title_dates_loop sparse ds header =
     Inr (if sparse
          then (if ds = [] then header
                else header\<lparr>Header.Label := Header.Label header @ map Cunitdate.Date ds,
                            DateAsLabel := False\<rparr>)
          else header\<lparr>Header.Date := Header.Date header @
                  map (\<lambda>d. \<lparr>Calendar = Attrcalendar d, Era = Attrera d, Normal = Attrnormal d,
                             NodeDate.Label = Cunitdate.Date d\<rparr>) ds\<rparr>)"
proof (induction ds arbitrary: header)
  case Nil
  show ?case by simp
next
  case (Cons d ds)
  show ?case
    by (simp add: Cons.IH NewNodeDate_def)
qed

lemma dates_loop_eq:
  "dates_loop ds header =
     Inr (header\<lparr>Header.Date := Header.Date header @
                  map (\<lambda>d. \<lparr>Calendar = Attrcalendar d, Era = Attrera d, Normal = Attrnormal d,
                             NodeDate.Label = Cunitdate.Date d\<rparr>) ds\<rparr>)"
proof (induction ds arbitrary: header)
  case Nil
  show ?case by simp
next
  case (Cons d ds)
  show ?case
    by (simp add: Cons.IH NewNodeDate_def)
qed

lemma titles_loop_eq:
  "titles_loop sparse ts header =
     Inr (header\<lparr>
       Header.Label := Header.Label header @
          concat (map (\<lambda>t. if Cunittitle.Cunitdate t = [] then [Title t]
                           else if sparse then map Cunitdate.Date (Cunittitle.Cunitdate t) else []) ts),
       Header.Date := Header.Date header @
          (if sparse then []
           else concat (map (\<lambda>t. map (\<lambda>d. \<lparr>Calendar = Attrcalendar d, Era = Attrera d,
                   Normal = Attrnormal d, NodeDate.Label = Cunitdate.Date d\<rparr>)
                 (Cunittitle.Cunitdate t)) ts)),
       DateAsLabel := (if \<exists>t\<in>set ts. Cunittitle.Cunitdate t \<noteq> [] then \<not> sparse
                       else DateAsLabel header)\<rparr>)"
proof (induction ts arbitrary: header)
  case Nil
  show ?case by simp
next
  case (Cons t ts)
  show ?case
    by (simp add: Cons.IH title_dates_loop_eq)
qed

lemma NewHeader_eq:
  "NewHeader cdid sparse =
     Inr \<lparr>Physdesc = (case Cphysdesc cdid of
                         Some physdesc \<Rightarrow> if sparse then '''' else PhyscDesc physdesc
                       | None \<Rightarrow> ''''),
          DateAsLabel = (\<not> sparse \<and> (\<exists>t\<in>set (Cunittitle cdid). Cunittitle.Cunitdate t \<noteq> [])),
          Header.Label =
            concat (map (\<lambda>t. if Cunittitle.Cunitdate t = [] then [Title t]
                             else if sparse then map Cunitdate.Date (Cunittitle.Cunitdate t)
                             else []) (Cunittitle cdid)),
          Header.Date =
            (if sparse then []
             else concat (map (\<lambda>t. map (\<lambda>d. \<lparr>Calendar = Attrcalendar d, Era = Attrera d,
                       Normal = Attrnormal d, NodeDate.Label = Cunitdate.Date d\<rparr>)
                     (Cunittitle.Cunitdate t)) (Cunittitle cdid)) @
                  map (\<lambda>d. \<lparr>Calendar = Attrcalendar d, Era = Attrera d,
                       Normal = Attrnormal d, NodeDate.Label = Cunitdate.Date d\<rparr>)
                    (Cdid.Cunitdate cdid)),
          InventoryNumber =
            (if filter (\<lambda>u. inventory_type (Cunitid.Attrtype u)) (Cunitid cdid) = [] then ''''
             else Cunitid.ID (last (filter (\<lambda>u. inventory_type (Cunitid.Attrtype u))
                                      (Cunitid cdid)))),
          Header.ID =
            (if sparse then []
             else map (\<lambda>u. \<lparr>NodeID.ID = Cunitid.ID u, TypeID = Attridentifier u,
                    NodeID.Type = Cunitid.Attrtype u, Audience = Attraudience u\<rparr>) (Cunitid cdid))\<rparr>"
  by (simp add: NewHeader_def empty_Header_def titles_loop_eq dates_loop_eq NewNodeIDs_def
      NewNodeIDs_loop_eq Let_def split: option.splits)

lemma NewHeader_total: "\<exists>header. NewHeader cdid sparse = Inr header"
  by (simp add: NewHeader_eq)

lemma NewHeader_InventoryNumber_mode:
  "NewHeader cdid True = Inr header \<Longrightarrow> NewHeader cdid False = Inr header' \<Longrightarrow>
     InventoryNumber header = InventoryNumber header'"
  by (auto simp: NewHeader_eq)

section \<open>Claims about header resolution\<close>

text \<open>
  C5. In either mode the resolved inventory number is the \<open>ID\<close> of the last identifier,
  in source order, whose type is \<open>ABS\<close>, \<open>series_code\<close> or empty (and the empty string
  when there is none); removing the identifiers of every other type leaves it unchanged.
  The identifiers \<open>other\<close>, \<open>ABS\<close> A1, \<open>series_code\<close> S1 resolve to S1, and \<open>ABS\<close> A1,
  \<open>other\<close> resolve to A1.
\<close>

theorem inventoryNumber_last_match:
  "\<exists>header header' ex1 ex2.
     NewHeader cdid sparse = Inr header \<and>
     InventoryNumber header =
       (if filter (\<lambda>u. inventory_type (Cunitid.Attrtype u)) (Cunitid cdid) = [] then ''''
        else Cunitid.ID (last (filter (\<lambda>u. inventory_type (Cunitid.Attrtype u)) (Cunitid cdid)))) \<and>
     NewHeader (cdid\<lparr>Cunitid := filter (\<lambda>u. inventory_type (Cunitid.Attrtype u)) (Cunitid cdid)\<rparr>)
         sparse = Inr header' \<and>
     InventoryNumber header' = InventoryNumber header \<and>
     (\<forall>t. inventory_type t \<longleftrightarrow> t = ''ABS'' \<or> t = ''series_code'' \<or> t = '''') \<and>
     NewHeader (did_of_ids [unitid ''other'' ''O1'', unitid ''ABS'' ''A1'',
                            unitid ''series_code'' ''S1'']) sparse = Inr ex1 \<and>
     InventoryNumber ex1 = ''S1'' \<and>
     NewHeader (did_of_ids [unitid ''ABS'' ''A1'', unitid ''other'' ''O1'']) sparse = Inr ex2 \<and>
     InventoryNumber ex2 = ''A1''"
  by (simp add: NewHeader_eq did_of_ids_def unitid_def inventory_type_def)

theorem inventoryNumber_last_match_witness:
  "\<exists>header. NewHeader did_1900 False = Inr header \<and> InventoryNumber header = ''A1''"
  using inventoryNumber_last_match [of did_1900 False]
  by (auto simp: did_1900_def unitid_def inventory_type_def)

text \<open>
  C6. A title with nested dates contributes, in full mode, one structured date per nested
  date to \<open>Date\<close> (before the direct dates) and sets \<open>DateAsLabel\<close>; in sparse mode it
  contributes the label of each nested date to \<open>Label\<close> and \<open>DateAsLabel\<close> ends false. In
  neither mode does its own text reach \<open>Label\<close>; a title without dates contributes its
  text. Everything is in source order.
\<close>

theorem title_date_resolution:
  "\<exists>full sparse.
     NewHeader cdid False = Inr full \<and>
     NewHeader cdid True = Inr sparse \<and>
     Header.Date full =
       concat (map (\<lambda>t. map (\<lambda>d. \<lparr>Calendar = Attrcalendar d, Era = Attrera d,
                       Normal = Attrnormal d, NodeDate.Label = Cunitdate.Date d\<rparr>)
                     (Cunittitle.Cunitdate t)) (Cunittitle cdid)) @
       map (\<lambda>d. \<lparr>Calendar = Attrcalendar d, Era = Attrera d,
                       Normal = Attrnormal d, NodeDate.Label = Cunitdate.Date d\<rparr>)
         (Cdid.Cunitdate cdid) \<and>
     DateAsLabel full = (\<exists>t\<in>set (Cunittitle cdid). Cunittitle.Cunitdate t \<noteq> []) \<and>
     Header.Label full =
       concat (map (\<lambda>t. if Cunittitle.Cunitdate t = [] then [Title t] else [])
                 (Cunittitle cdid)) \<and>
     Header.Label sparse =
       concat (map (\<lambda>t. if Cunittitle.Cunitdate t = [] then [Title t]
                        else map Cunitdate.Date (Cunittitle.Cunitdate t)) (Cunittitle cdid)) \<and>
     DateAsLabel sparse = False"
  by (simp add: NewHeader_eq cong: if_cong)

theorem title_date_resolution_witness:
  "\<exists>full sparse.
     NewHeader did_1900 False = Inr full \<and>
     NewHeader did_1900 True = Inr sparse \<and>
     Header.Date full =
       [\<lparr>Calendar = ''gregorian'', Era = ''ce'', Normal = ''1900'', NodeDate.Label = ''1900''\<rparr>,
        \<lparr>Calendar = ''gregorian'', Era = ''ce'', Normal = ''1901'', NodeDate.Label = ''1901''\<rparr>] \<and>
     DateAsLabel full \<and>
     Header.Label full = [''Letters''] \<and>
     Header.Label sparse = [''1900'', ''Letters''] \<and>
     \<not> DateAsLabel sparse"
  using title_date_resolution [of did_1900]
  by (auto simp: did_1900_def unitdate_def)

text \<open>
  C9. \<open>NewNodeID\<close>, \<open>NewNodeDate\<close>, \<open>NewNodeIDs\<close> and \<open>NewHeader\<close> return a value and
  no error, for every input and in either mode.
\<close>

theorem header_resolution_never_fails:
  "(\<exists>header. NewHeader cdid sparse = Inr header) \<and>
   (\<exists>ids inventoryID. NewNodeIDs cdid sparse = Inr (ids, inventoryID)) \<and>
   (\<exists>nodeID. NewNodeID ui = Inr nodeID) \<and>
   (\<exists>nodeDate. NewNodeDate date = Inr nodeDate)"
  by (simp add: NewHeader_eq NewNodeIDs_def NewNodeIDs_loop_eq NewNodeID_def NewNodeDate_def)

section \<open>The descent, step by step\<close>

lemma NewNode_nested_acc:
  "NewNode_nested marshal growcap cs parentIDs sparse st acc =
     (case NewNode_nested marshal growcap cs parentIDs sparse st [] of
        Inl err \<Rightarrow> Inl err
      | Inr (ns, st') \<Rightarrow> Inr (acc @ ns, st'))"
proof (induction cs arbitrary: st acc)
  case Nil
  show ?case by simp
next
  case (Cons c cs)
  show ?case
  proof (cases "NewNode marshal growcap c parentIDs sparse st")
    case (Inl e)
    then show ?thesis by simp
  next
    case (Inr r)
    obtain n st' where r: "r = (n, st')" by (cases r)
    show ?thesis
      using Inr r Cons.IH [of st' "acc @ [n]"] Cons.IH [of st' "[n]"]
      by (simp split: sum.splits)
  qed
qed

lemma NewNode_nested_Cons_Inr:
  "NewNode_nested marshal growcap (c # cs) parentIDs sparse st [] = Inr (ns, st'') \<longleftrightarrow>
     (\<exists>n st' ns'. NewNode marshal growcap c parentIDs sparse st = Inr (n, st') \<and>
        NewNode_nested marshal growcap cs parentIDs sparse st' [] = Inr (ns', st'') \<and>
        ns = n # ns')"
proof (cases "NewNode marshal growcap c parentIDs sparse st")
  case (Inl e)
  then show ?thesis by simp
next
  case (Inr r)
  obtain n st' where r: "r = (n, st')" by (cases r)
  show ?thesis
    using Inr r NewNode_nested_acc [of marshal growcap cs parentIDs sparse st' "[n]"]
    by (auto split: sum.splits)
qed

lemma NewNode_Inr:
  "NewNode marshal growcap (Clevel xmlname attrlevel attrotherlevel cdid cscopecontent nested)
       parentIDs sparse (counter, h) = Inr (n, st') \<longleftrightarrow>
     (\<exists>header html nodes.
        NewHeader cdid sparse = Inr header \<and>
        scope_html marshal cscopecontent sparse = Inr html \<and>
        NewNode_nested marshal growcap nested 
           (fst (go_append growcap parentIDs (InventoryNumber header) h)) sparse
           (counter + 1, snd (go_append growcap parentIDs (InventoryNumber header) h)) [] = Inr (nodes, st') \<and>
        n = Node (if sparse then '''' else Local xmlname) (word_of_nat (len parentIDs + 1))
              attrlevel attrotherlevel parentIDs (counter + 1) header html nodes)"
  by (cases nested) (auto simp: scope_html_def Let_def split: sum.splits prod.splits)

lemma Cc01_NewNode_Inr:
  "Cc01_NewNode marshal growcap (Clevel xmlname attrlevel attrotherlevel cdid cscopecontent nested)
       sparse (counter, h) = Inr (n, st') \<longleftrightarrow>
     (\<exists>header html nodes.
        NewHeader cdid sparse = Inr header \<and>
        scope_html marshal cscopecontent sparse = Inr html \<and>
        NewNode_nested marshal growcap nested 
           (Slice (length h) 1 1) sparse
           (counter + 1, h @ [[InventoryNumber header]]) [] = Inr (nodes, st') \<and>
        n = Node (if sparse then '''' else Local xmlname) 1
              attrlevel attrotherlevel nil_slice (counter + 1) header html nodes)"
  by (cases nested) (auto simp: scope_html_def slice_lit_def Let_def split: sum.splits prod.splits)

lemma NewNode_unfold:
  "NewNode marshal growcap (Clevel xmlname attrlevel attrotherlevel cdid cscopecontent nested)
       parentIDs sparse (counter, h) =
     (case NewHeader cdid sparse of
        Inl err \<Rightarrow> Inl err
      | Inr header \<Rightarrow>
          (case scope_html marshal cscopecontent sparse of
             Inl err \<Rightarrow> Inl err
           | Inr html \<Rightarrow>
               (case NewNode_nested marshal growcap nested
                       (fst (go_append growcap parentIDs (InventoryNumber header) h)) sparse
                       (counter + 1, snd (go_append growcap parentIDs (InventoryNumber header) h)) [] of
                  Inl err \<Rightarrow> Inl err
                | Inr (nodes, st) \<Rightarrow>
                    Inr (Node (if sparse then '''' else Local xmlname)
                           (word_of_nat (len parentIDs + 1)) attrlevel attrotherlevel parentIDs
                           (counter + 1) header html nodes, st))))"
  by (cases nested) (auto simp: scope_html_def Let_def split: sum.splits prod.splits option.splits)

lemma Cc01_NewNode_unfold:
  "Cc01_NewNode marshal growcap (Clevel xmlname attrlevel attrotherlevel cdid cscopecontent nested)
       sparse (counter, h) =
     (case NewHeader cdid sparse of
        Inl err \<Rightarrow> Inl err
      | Inr header \<Rightarrow>
          (case scope_html marshal cscopecontent sparse of
             Inl err \<Rightarrow> Inl err
           | Inr html \<Rightarrow>
               (case NewNode_nested marshal growcap nested (Slice (length h) 1 1) sparse
                       (counter + 1, h @ [[InventoryNumber header]]) [] of
                  Inl err \<Rightarrow> Inl err
                | Inr (nodes, st) \<Rightarrow>
                    Inr (Node (if sparse then '''' else Local xmlname) 1 attrlevel attrotherlevel
                           nil_slice (counter + 1) header html nodes, st))))"
  by (cases nested)
    (auto simp: scope_html_def slice_lit_def Let_def split: sum.splits prod.splits option.splits)

lemma dsc_loop_acc:
  "dsc_loop marshal growcap cs sparse st acc =
     (case dsc_loop marshal growcap cs sparse st [] of
        Inl err \<Rightarrow> Inl err
      | Inr (ns, st') \<Rightarrow> Inr (acc @ ns, st'))"
proof (induction cs arbitrary: st acc)
  case Nil
  show ?case by simp
next
  case (Cons c cs)
  show ?case
  proof (cases "Cc01_NewNode marshal growcap c sparse st")
    case (Inl e)
    then show ?thesis by simp
  next
    case (Inr r)
    obtain n st' where r: "r = (n, st')" by (cases r)
    show ?thesis
      using Inr r Cons.IH [of st' "acc @ [n]"] Cons.IH [of st' "[n]"]
      by (simp split: sum.splits)
  qed
qed

lemma dsc_loop_Cons_Inr:
  "dsc_loop marshal growcap (c # cs) sparse st [] = Inr (ns, st'') \<longleftrightarrow>
     (\<exists>n st' ns'. Cc01_NewNode marshal growcap c sparse st = Inr (n, st') \<and>
        dsc_loop marshal growcap cs sparse st' [] = Inr (ns', st'') \<and>
        ns = n # ns')"
proof (cases "Cc01_NewNode marshal growcap c sparse st")
  case (Inl e)
  then show ?thesis by simp
next
  case (Inr r)
  obtain n st' where r: "r = (n, st')" by (cases r)
  show ?thesis
    using Inr r dsc_loop_acc [of marshal growcap cs sparse st' "[n]"]
    by (auto split: sum.splits)
qed

lemma foldl_labels: "foldl (\<lambda>l label. l @ [Head label]) acc xs = acc @ map Head xs"
  by (induction xs arbitrary: acc) simp_all

lemma newSparseNodeList_Inr:
  "newSparseNodeList marshal growcap dsc sparse = Inr (nl, counter, h) \<longleftrightarrow>
     dsc_loop marshal growcap (Cdsc.Nested dsc) sparse (0, []) [] = Inr (NodeList.Nodes nl, (counter, h)) \<and>
     nl = \<lparr>NodeList.Type = Cdsc.Attrtype dsc, NodeList.Label = map Head (Chead dsc),
           NodeList.Nodes = NodeList.Nodes nl\<rparr>"
  by (auto simp: newSparseNodeList_def foldl_labels split: sum.splits)

lemma preorder_list_Cons: "preorder_list (n # ns) = nodes_preorder n @ preorder_list ns"
  by (simp add: preorder_list_def)

lemma preorder_list_Nil: "preorder_list [] = []"
  by (simp add: preorder_list_def)

lemma levels_list_Cons: "levels_list (c # cs) = levels_preorder c @ levels_list cs"
  by (simp add: levels_list_def)

lemma levels_list_Nil: "levels_list [] = []"
  by (simp add: levels_list_def)

lemma nodes_preorder_Node:
  "nodes_preorder (Node ctag depth type subtype parentIDs order header html nodes) =
     Node ctag depth type subtype parentIDs order header html nodes # preorder_list nodes"
  by (simp add: preorder_list_def)

lemma nodes_preorder_unfold: "nodes_preorder x = x # preorder_list (Node.Nodes x)"
  by (cases x) (simp add: preorder_list_def)

lemma levels_preorder_Clevel:
  "levels_preorder (Clevel xmlname attrlevel attrotherlevel cdid cscopecontent nested) =
     Clevel xmlname attrlevel attrotherlevel cdid cscopecontent nested # levels_list nested"
  by (simp add: levels_list_def)

subsection \<open>Induction over the successful runs\<close>

lemma NewNode_success_induct:
  fixes P :: "'p Clevel \<Rightarrow> slice \<Rightarrow> state \<Rightarrow> Node \<Rightarrow> state \<Rightarrow> bool"
    and Q :: "'p Clevel list \<Rightarrow> slice \<Rightarrow> state \<Rightarrow> Node list \<Rightarrow> state \<Rightarrow> bool"
  assumes node: "\<And>xmlname attrlevel attrotherlevel cdid cscopecontent nested parentIDs counter h
       header html nodes st'.
       NewHeader cdid sparse = Inr header \<Longrightarrow>
       scope_html marshal cscopecontent sparse = Inr html \<Longrightarrow>
       NewNode_nested marshal growcap nested
           (fst (go_append growcap parentIDs (InventoryNumber header) h)) sparse
           (counter + 1, snd (go_append growcap parentIDs (InventoryNumber header) h)) []
         = Inr (nodes, st') \<Longrightarrow>
       Q nested (fst (go_append growcap parentIDs (InventoryNumber header) h))
           (counter + 1, snd (go_append growcap parentIDs (InventoryNumber header) h)) nodes st' \<Longrightarrow>
       P (Clevel xmlname attrlevel attrotherlevel cdid cscopecontent nested) parentIDs (counter, h)
         (Node (if sparse then '''' else Local xmlname) (word_of_nat (len parentIDs + 1))
              attrlevel attrotherlevel parentIDs (counter + 1) header html nodes) st'"
    and nil: "\<And>parentIDs st. Q [] parentIDs st [] st"
    and cons: "\<And>c cs parentIDs st n st' ns st''.
       NewNode marshal growcap c parentIDs sparse st = Inr (n, st') \<Longrightarrow>
       P c parentIDs st n st' \<Longrightarrow>
       NewNode_nested marshal growcap cs parentIDs sparse st' [] = Inr (ns, st'') \<Longrightarrow>
       Q cs parentIDs st' ns st'' \<Longrightarrow>
       Q (c # cs) parentIDs st (n # ns) st''"
  shows NewNode_success: "NewNode marshal growcap c parentIDs sparse st = Inr (n, st') \<Longrightarrow>
           P c parentIDs st n st'"
    and NewNode_nested_success:
         "NewNode_nested marshal growcap cs parentIDs sparse st [] = Inr (ns, st') \<Longrightarrow>
           Q cs parentIDs st ns st'"
proof -
  have list: "\<forall>parentIDs st ns st'.
         NewNode_nested marshal growcap cs parentIDs sparse st [] = Inr (ns, st') \<longrightarrow>
         Q cs parentIDs st ns st'"
    if "\<forall>c\<in>set cs. \<forall>parentIDs st n st'.
          NewNode marshal growcap c parentIDs sparse st = Inr (n, st') \<longrightarrow> P c parentIDs st n st'"
    for cs
    using that
  proof (induction cs)
    case Nil
    show ?case by (simp add: nil)
  next
    case (Cons c cs)
    show ?case
    proof (intro allI impI)
      fix parentIDs st ns st''
      assume run: "NewNode_nested marshal growcap (c # cs) parentIDs sparse st [] = Inr (ns, st'')"
      then obtain n st' ns' where
        1: "NewNode marshal growcap c parentIDs sparse st = Inr (n, st')" and
        2: "NewNode_nested marshal growcap cs parentIDs sparse st' [] = Inr (ns', st'')" and
        3: "ns = n # ns'"
        unfolding NewNode_nested_Cons_Inr by blast
      have 4: "P c parentIDs st n st'"
        using Cons.prems 1 list.set_intros(1) [of c cs] by blast
      have 5: "Q cs parentIDs st' ns' st''"
        using Cons.IH Cons.prems 2 list.set_intros(2) [of _ cs c] by blast
      show "Q (c # cs) parentIDs st ns st''"
        unfolding 3 by (rule cons [OF 1 4 2 5])
    qed
  qed
  have tree: "\<forall>parentIDs st n st'.
         NewNode marshal growcap c parentIDs sparse st = Inr (n, st') \<longrightarrow> P c parentIDs st n st'"
    for c
  proof (induction c)
    case (Clevel xmlname attrlevel attrotherlevel cdid cscopecontent nested)
    have "\<forall>parentIDs st ns st'.
         NewNode_nested marshal growcap nested parentIDs sparse st [] = Inr (ns, st') \<longrightarrow>
         Q nested parentIDs st ns st'"
      by (rule list) (use Clevel.IH in blast)
    then show ?case
      unfolding split_paired_All NewNode_Inr by (blast intro: node)
  qed
  show "NewNode marshal growcap c parentIDs sparse st = Inr (n, st') \<Longrightarrow>
           P c parentIDs st n st'"
    using tree by blast
  show "NewNode_nested marshal growcap cs parentIDs sparse st [] = Inr (ns, st') \<Longrightarrow>
           Q cs parentIDs st ns st'"
    using list tree by blast
qed

lemma dsc_loop_success_induct:
  fixes R :: "'p Clevel \<Rightarrow> state \<Rightarrow> Node \<Rightarrow> state \<Rightarrow> bool"
    and S :: "'p Clevel list \<Rightarrow> state \<Rightarrow> Node list \<Rightarrow> state \<Rightarrow> bool"
  assumes root: "\<And>xmlname attrlevel attrotherlevel cdid cscopecontent nested counter h
       header html nodes st'.
       NewHeader cdid sparse = Inr header \<Longrightarrow>
       scope_html marshal cscopecontent sparse = Inr html \<Longrightarrow>
       NewNode_nested marshal growcap nested (Slice (length h) 1 1) sparse
           (counter + 1, h @ [[InventoryNumber header]]) [] = Inr (nodes, st') \<Longrightarrow>
       R (Clevel xmlname attrlevel attrotherlevel cdid cscopecontent nested) (counter, h)
         (Node (if sparse then '''' else Local xmlname) 1
              attrlevel attrotherlevel nil_slice (counter + 1) header html nodes) st'"
    and nil: "\<And>st. S [] st [] st"
    and cons: "\<And>c cs st n st' ns st''.
       Cc01_NewNode marshal growcap c sparse st = Inr (n, st') \<Longrightarrow>
       R c st n st' \<Longrightarrow>
       dsc_loop marshal growcap cs sparse st' [] = Inr (ns, st'') \<Longrightarrow>
       S cs st' ns st'' \<Longrightarrow>
       S (c # cs) st (n # ns) st''"
  shows "dsc_loop marshal growcap cs sparse st [] = Inr (ns, st') \<Longrightarrow> S cs st ns st'"
proof (induction cs arbitrary: st ns st')
  case Nil
  then show ?case by (simp add: nil)
next
  case (Cons c cs)
  from Cons.prems obtain n st1 ns' where
    1: "Cc01_NewNode marshal growcap c sparse st = Inr (n, st1)" and
    2: "dsc_loop marshal growcap cs sparse st1 [] = Inr (ns', st')" and
    3: "ns = n # ns'"
    unfolding dsc_loop_Cons_Inr by blast
  obtain xmlname attrlevel attrotherlevel cdid cscopecontent nested where
    c: "c = Clevel xmlname attrlevel attrotherlevel cdid cscopecontent nested"
    by (cases c)
  obtain counter h where st: "st = (counter, h)"
    by (cases st)
  have 4: "R c st n st1"
    using 1 unfolding c st Cc01_NewNode_Inr by (blast intro: root)
  have 5: "S cs st1 ns' st'"
    using Cons.IH 2 .
  show ?case
    unfolding 3 by (rule cons [OF 1 4 2 5])
qed

subsection \<open>The examples, evaluated\<close>

lemma letters_full:
  "newSparseNodeList Inr go_growcap letters_dsc False =
     Inr (\<lparr>NodeList.Type = ''combined'', NodeList.Label = [''Inventory''],
           NodeList.Nodes =
             [Node ''c01'' 1 ''series'' '''' nil_slice 1
                \<lparr>Physdesc = '''', DateAsLabel = False, Header.Label = [''Letters''],
                  Header.Date = [], InventoryNumber = ''S1'',
                  Header.ID = [\<lparr>NodeID.ID = ''S1'', TypeID = '''', NodeID.Type = ''ABS'',
                                 Audience = ''''\<rparr>]\<rparr>
                ''<p>Family letters</p>''
                [Node ''c02'' 2 ''file'' '''' (Slice 0 1 1) 2
                   \<lparr>Physdesc = '''', DateAsLabel = False, Header.Label = [''Letter 1''],
                     Header.Date = [], InventoryNumber = '''', Header.ID = []\<rparr>
                   '''' []]]\<rparr>,
          2, [[''S1''], [''S1'', '''']])"
  by (simp add: newSparseNodeList_def letters_dsc_def title_did_def unitid_def NewHeader_eq
      inventory_type_def go_append_def slice_lit_def go_growcap_def nil_slice_def)

lemma letters_sparse:
  "newSparseNodeList Inr go_growcap letters_dsc True =
     Inr (\<lparr>NodeList.Type = ''combined'', NodeList.Label = [''Inventory''],
           NodeList.Nodes =
             [Node '''' 1 ''series'' '''' nil_slice 1
                \<lparr>Physdesc = '''', DateAsLabel = False, Header.Label = [''Letters''],
                  Header.Date = [], InventoryNumber = ''S1'',
                  Header.ID = []\<rparr>
                ''''
                [Node '''' 2 ''file'' '''' (Slice 0 1 1) 2
                   \<lparr>Physdesc = '''', DateAsLabel = False, Header.Label = [''Letter 1''],
                     Header.Date = [], InventoryNumber = '''', Header.ID = []\<rparr>
                   '''' []]]\<rparr>,
          2, [[''S1''], [''S1'', '''']])"
  by (simp add: newSparseNodeList_def letters_dsc_def title_did_def unitid_def NewHeader_eq
      inventory_type_def go_append_def slice_lit_def go_growcap_def nil_slice_def)

lemma minutes_sparse:
  "NewSparseNodeList Inr go_growcap minutes_dsc =
     Inr (\<lparr>NodeList.Type = ''combined'', NodeList.Label = [],
           NodeList.Nodes =
             [Node '''' 1 ''fonds'' '''' nil_slice 1
                \<lparr>Physdesc = '''', DateAsLabel = False, Header.Label = [''1900'', ''Letters''],
                  Header.Date = [], InventoryNumber = ''A1'', Header.ID = []\<rparr>
                '''' []]\<rparr>,
          1, [[''A1'']])"
  by (simp add: NewSparseNodeList_def newSparseNodeList_def minutes_dsc_def did_1900_def
      unitid_def unitdate_def NewHeader_eq inventory_type_def go_append_def slice_lit_def
      go_growcap_def nil_slice_def)

lemma broken_full:
  "NewNodeList marshal_example go_growcap broken_dsc = Inl (Error ''xml: unsupported type'')"
  by (simp add: NewNodeList_def newSparseNodeList_def broken_dsc_def title_did_def unitid_def
      NewHeader_eq inventory_type_def go_append_def slice_lit_def go_growcap_def
      marshal_example_def)

lemma skeleton_example:
  "map (skeleton [[''S1''], [''S1'', '''']])
     (NodeList.Nodes (fst (projr (newSparseNodeList Inr go_growcap letters_dsc True)))) =
     [Skeleton 1 1 [] ''series'' '''' ''S1'' [Skeleton 2 2 [''S1''] ''file'' '''' '''' []]]"
  by (simp add: letters_sparse slice_elems_def nil_slice_def)

section \<open>The empty description\<close>

text \<open>
  C10. With no root-level components both conversions succeed: the type and the labels are
  copied from the input, there are no nodes and the count is 0.
\<close>

theorem empty_description:
  assumes "Cdsc.Nested dsc = []"
  shows "NewNodeList marshal growcap dsc =
           Inr (\<lparr>NodeList.Type = Cdsc.Attrtype dsc, NodeList.Label = map Head (Chead dsc),
                 NodeList.Nodes = []\<rparr>, 0, []) \<and>
         NewSparseNodeList marshal growcap dsc =
           Inr (\<lparr>NodeList.Type = Cdsc.Attrtype dsc, NodeList.Label = map Head (Chead dsc),
                 NodeList.Nodes = []\<rparr>, 0, [])"
  using assms
  by (simp add: NewNodeList_def NewSparseNodeList_def newSparseNodeList_def foldl_labels)

theorem empty_description_witness:
  "Cdsc.Nested dsc_empty = [] \<and>
   NewNodeList Inr go_growcap dsc_empty =
     Inr (\<lparr>NodeList.Type = ''combined'', NodeList.Label = [''Inventory'', ''Series''],
           NodeList.Nodes = []\<rparr>, 0, []) \<and>
   NewSparseNodeList Inr go_growcap dsc_empty =
     Inr (\<lparr>NodeList.Type = ''combined'', NodeList.Label = [''Inventory'', ''Series''],
           NodeList.Nodes = []\<rparr>, 0, [])"
proof -
  have empty: "Cdsc.Nested dsc_empty = []"
    by (simp add: dsc_empty_def)
  show ?thesis
    using empty empty_description [OF empty, of Inr go_growcap]
    by (simp add: dsc_empty_def)
qed

section \<open>The order of the nodes\<close>

lemma count_up_Suc:
  "map (\<lambda>i. (c :: 64 word) + 1 + of_nat i) [0..<Suc k] =
     (c + 1) # map (\<lambda>i. c + 1 + 1 + of_nat i) [0..<k]"
proof -
  have "[0..<Suc k] = 0 # map Suc [0..<k]"
    by (metis map_Suc_upt upt_conv_Cons zero_less_Suc)
  then show ?thesis
    unfolding list.map map_map comp_def of_nat_Suc by (simp add: add.assoc)
qed

lemma count_up_append:
  "map (\<lambda>i. (c :: 64 word) + 1 + of_nat i) [0..<a] @
     map (\<lambda>i. c + of_nat a + 1 + of_nat i) [0..<b] =
   map (\<lambda>i. c + 1 + of_nat i) [0..<a + b]"
proof -
  have split: "[0..<a + b] = [0..<a] @ map (\<lambda>i. i + a) [0..<b]"
    by (metis add.commute le0 map_add_upt upt_add_eq_append)
  have shift: "c + of_nat a + 1 + of_nat i = c + 1 + (of_nat i + of_nat a)" for i :: nat
    by (simp only: add_ac)
  show ?thesis
    unfolding split map_append map_map comp_def of_nat_add shift ..
qed

lemma order_of_nodes_Cons:
  assumes "order_of_node c parentIDs st n st'" and "order_of_nodes cs parentIDs st' ns st''"
  shows "order_of_nodes (c # cs) parentIDs st (n # ns) st''"
  using assms count_up_append [of "fst st" "length (levels_preorder c)" "length (levels_list cs)"]
  by (simp add: order_of_node_def order_of_nodes_def preorder_list_Cons levels_list_Cons
      add.assoc)

lemma NewNode_nested_order:
  assumes "NewNode_nested marshal growcap cs parentIDs sparse st [] = Inr (ns, st')"
  shows "order_of_nodes cs parentIDs st ns st'"
  using assms
proof (rule NewNode_nested_success [where P = order_of_node and Q = order_of_nodes, rotated -1])
  fix xmlname attrlevel attrotherlevel cdid cscopecontent and nested :: "'p Clevel list"
    and parentIDs counter h and header :: Header and html nodes st'
  let ?p = "fst (go_append growcap parentIDs (InventoryNumber header) h)"
  let ?h = "snd (go_append growcap parentIDs (InventoryNumber header) h)"
  assume "order_of_nodes nested ?p (counter + 1, ?h) nodes st'"
  then show "order_of_node (Clevel xmlname attrlevel attrotherlevel cdid cscopecontent nested)
       parentIDs (counter, h)
       (Node (if sparse then '''' else Local xmlname) (word_of_nat (len parentIDs + 1))
              attrlevel attrotherlevel parentIDs (counter + 1) header html nodes) st'"
    using count_up_Suc [of counter "length (levels_list nested)"]
    by (simp add: order_of_node_def order_of_nodes_def nodes_preorder_Node levels_preorder_Clevel
        add.assoc del: nodes_preorder.simps levels_preorder.simps upt_Suc)
next
  show "order_of_nodes [] parentIDs st [] st" for parentIDs st
    by (simp add: order_of_nodes_def preorder_list_Nil levels_list_Nil)
next
  show "order_of_nodes (c # cs) parentIDs st (n # ns) st''"
    if "order_of_node c parentIDs st n st'" and "order_of_nodes cs parentIDs st' ns st''"
    for c :: "'p Clevel" and cs parentIDs st n st' ns st''
    using that by (rule order_of_nodes_Cons)
qed

lemma Cc01_NewNode_order:
  assumes "Cc01_NewNode marshal growcap c sparse st = Inr (n, st')"
  shows "order_of_node c nil_slice st n st'"
proof -
  obtain xmlname attrlevel attrotherlevel cdid cscopecontent nested where
    c: "c = Clevel xmlname attrlevel attrotherlevel cdid cscopecontent nested"
    by (cases c)
  obtain counter h where st: "st = (counter, h)"
    by (cases st)
  from assms obtain header html nodes where
    run: "NewNode_nested marshal growcap nested (Slice (length h) 1 1) sparse
           (counter + 1, h @ [[InventoryNumber header]]) [] = Inr (nodes, st')" and
    n: "n = Node (if sparse then '''' else Local xmlname) 1
              attrlevel attrotherlevel nil_slice (counter + 1) header html nodes"
    unfolding c st Cc01_NewNode_Inr by blast
  have "order_of_nodes nested (Slice (length h) 1 1) (counter + 1, h @ [[InventoryNumber header]])
          nodes st'"
    using run by (rule NewNode_nested_order)
  then show ?thesis
    using count_up_Suc [of counter "length (levels_list nested)"]
    unfolding c st n
    by (simp add: order_of_node_def order_of_nodes_def nodes_preorder_Node levels_preorder_Clevel
        add.assoc del: nodes_preorder.simps levels_preorder.simps upt_Suc)
qed

lemma dsc_loop_order:
  "dsc_loop marshal growcap cs sparse st [] = Inr (ns, st') \<Longrightarrow>
     order_of_nodes cs nil_slice st ns st'"
proof (induction cs arbitrary: st ns st')
  case Nil
  then show ?case
    by (simp add: order_of_nodes_def preorder_list_Nil levels_list_Nil)
next
  case (Cons c cs)
  from Cons.prems obtain n st1 ns' where
    1: "Cc01_NewNode marshal growcap c sparse st = Inr (n, st1)" and
    2: "dsc_loop marshal growcap cs sparse st1 [] = Inr (ns', st')" and
    3: "ns = n # ns'"
    unfolding dsc_loop_Cons_Inr by blast
  show ?case
    unfolding 3 using Cc01_NewNode_order [OF 1] Cons.IH [OF 2] by (rule order_of_nodes_Cons)
qed

lemma unat_of_nat64: "k < 2 ^ 64 \<Longrightarrow> unat (word_of_nat k :: 64 word) = k"
  by (simp add: unat_of_nat)

lemma unat_count_up:
  assumes "k < 2 ^ 64"
  shows "map (\<lambda>i. unat ((0 :: 64 word) + 1 + of_nat i)) [0..<k] = [1..<Suc k]"
proof -
  have "unat ((0 :: 64 word) + 1 + of_nat i) = Suc i" if "i < k" for i
  proof -
    have "Suc i < 2 ^ 64"
      using that assms by simp
    then have "unat (word_of_nat (Suc i) :: 64 word) = Suc i"
      by (rule unat_of_nat64)
    then show ?thesis
      by (simp add: add.commute)
  qed
  then have "map (\<lambda>i. unat ((0 :: 64 word) + 1 + of_nat i)) [0..<k] = map Suc [0..<k]"
    by (intro map_cong) auto
  then show ?thesis
    by (simp only: map_Suc_upt One_nat_def)
qed

lemma newSparseNodeList_orders:
  assumes run: "newSparseNodeList marshal growcap dsc sparse = Inr (nl, totalNodeCount, h)"
    and small: "length (levels_list (Cdsc.Nested dsc)) < 2 ^ 64"
  shows "map (unat \<circ> Order) (preorder_list (NodeList.Nodes nl)) =
           [1..<Suc (length (levels_list (Cdsc.Nested dsc)))]"
    and "unat totalNodeCount = length (levels_list (Cdsc.Nested dsc))"
proof -
  let ?k = "length (levels_list (Cdsc.Nested dsc))"
  have "dsc_loop marshal growcap (Cdsc.Nested dsc) sparse (0, []) [] =
          Inr (NodeList.Nodes nl, (totalNodeCount, h))"
    using run unfolding newSparseNodeList_Inr by blast
  then have ord: "order_of_nodes (Cdsc.Nested dsc) nil_slice (0, []) (NodeList.Nodes nl)
                    (totalNodeCount, h)"
    by (rule dsc_loop_order)
  then have "map Order (preorder_list (NodeList.Nodes nl)) =
               map (\<lambda>i. (0 :: 64 word) + 1 + of_nat i) [0..<?k]"
    by (simp add: order_of_nodes_def)
  then have "map (unat \<circ> Order) (preorder_list (NodeList.Nodes nl)) =
               map (\<lambda>i. unat ((0 :: 64 word) + 1 + of_nat i)) [0..<?k]"
    unfolding map_map [symmetric] by (simp only: map_map comp_def)
  then show "map (unat \<circ> Order) (preorder_list (NodeList.Nodes nl)) = [1..<Suc ?k]"
    using unat_count_up [OF small] by simp
  have "totalNodeCount = of_nat ?k"
    using ord by (simp add: order_of_nodes_def)
  then show "unat totalNodeCount = ?k"
    using small by (simp add: unat_of_nat64)
qed

lemma sorted_wrt_concat_elem:
  "sorted_wrt R (concat xss) \<Longrightarrow> xs \<in> set xss \<Longrightarrow> sorted_wrt R xs"
  by (induction xss) (auto simp: sorted_wrt_append)

lemma sorted_preorder_subtree:
  "sorted_wrt R (nodes_preorder n) \<Longrightarrow> x \<in> set (nodes_preorder n) \<Longrightarrow>
     sorted_wrt R (nodes_preorder x)"
proof (induction n arbitrary: x)
  case (Node ctag depth type subtype parentIDs order header html nodes)
  let ?n = "Node ctag depth type subtype parentIDs order header html nodes"
  show ?case
  proof (cases "x = ?n")
    case True
    then show ?thesis using Node.prems(1) by simp
  next
    case False
    then obtain c where c: "c \<in> set nodes" and x: "x \<in> set (nodes_preorder c)"
      using Node.prems(2) by auto
    have "sorted_wrt R (concat (map nodes_preorder nodes))"
      using Node.prems(1) by simp
    then have "sorted_wrt R (nodes_preorder c)"
      using c by (auto intro: sorted_wrt_concat_elem)
    then show ?thesis
      using Node.IH c x by blast
  qed
qed

lemma sorted_preorder_list_subtree:
  assumes "sorted_wrt R (preorder_list ns)" and "x \<in> set (preorder_list ns)"
  shows "sorted_wrt R (nodes_preorder x)"
proof -
  obtain n where n: "n \<in> set ns" and x: "x \<in> set (nodes_preorder n)"
    using assms(2) by (auto simp: preorder_list_def)
  have "sorted_wrt R (nodes_preorder n)"
    using assms(1) n unfolding preorder_list_def by (auto intro: sorted_wrt_concat_elem)
  then show ?thesis
    using x by (rule sorted_preorder_subtree)
qed

lemma sorted_siblings_ordered:
  "sorted_wrt (\<lambda>a b. Order a < Order b) (preorder_list ns) \<Longrightarrow> siblings_ordered ns"
  by (induction ns) (auto simp: preorder_list_Cons sorted_wrt_append)

lemma distinct_map_comp: "distinct (map (f \<circ> g) xs) \<Longrightarrow> distinct (map g xs)"
  by (induction xs) auto

text \<open>
  C1. When a conversion succeeds on a description of fewer than \<open>2 ^ 64\<close> components (the
  counter is a uint64; more components than that do not fit in an address space), the
  \<open>Order\<close> values of the produced nodes, listed in pre-order, are exactly 1, 2, ..,
  \<open>totalNodeCount\<close>: as a multiset they are \<open>{1, .., totalNodeCount}\<close> without repeats, the
  returned count is the number of produced nodes, every node's order is below the order of
  each of its descendants, and below a list of siblings (the roots, or the children of any
  node) every node of an earlier sibling's subtree has a smaller order than every node of
  a later sibling's subtree.
\<close>

theorem order_is_preorder_count:
  assumes "newSparseNodeList marshal growcap dsc sparse = Inr (nl, totalNodeCount, h)"
    and "length (levels_list (Cdsc.Nested dsc)) < 2 ^ 64"
  shows "map (unat \<circ> Order) (preorder_list (NodeList.Nodes nl)) = [1..<Suc (unat totalNodeCount)] \<and>
         mset (map (unat \<circ> Order) (preorder_list (NodeList.Nodes nl))) =
           mset [1..<Suc (unat totalNodeCount)] \<and>
         distinct (map Order (preorder_list (NodeList.Nodes nl))) \<and>
         unat totalNodeCount = length (preorder_list (NodeList.Nodes nl)) \<and>
         length (preorder_list (NodeList.Nodes nl)) = length (levels_list (Cdsc.Nested dsc)) \<and>
         (\<forall>n\<in>set (preorder_list (NodeList.Nodes nl)).
            \<forall>d\<in>set (preorder_list (Node.Nodes n)). Order n < Order d) \<and>
         (\<forall>n\<in>set (preorder_list (NodeList.Nodes nl)). siblings_ordered (Node.Nodes n)) \<and>
         siblings_ordered (NodeList.Nodes nl)"
proof -
  let ?all = "preorder_list (NodeList.Nodes nl)"
  let ?R = "\<lambda>a b. Order a < Order b"
  have total: "unat totalNodeCount = length (levels_list (Cdsc.Nested dsc))"
    using assms by (rule newSparseNodeList_orders(2))
  have orders: "map (unat \<circ> Order) ?all = [1..<Suc (unat totalNodeCount)]"
    using newSparseNodeList_orders(1) [OF assms] total by simp
  have len: "length ?all = unat totalNodeCount"
    using arg_cong [OF orders, of length] by simp
  have "sorted_wrt (<) (map (unat \<circ> Order) ?all)"
    unfolding orders by (rule sorted_wrt_upt)
  then have sorted: "sorted_wrt ?R ?all"
    by (simp add: sorted_wrt_map word_less_nat_alt)
  have "distinct (map (unat \<circ> Order) ?all)"
    unfolding orders by simp
  then have dist: "distinct (map Order ?all)"
    by (rule distinct_map_comp)
  have sub: "sorted_wrt ?R (n # preorder_list (Node.Nodes n))" if "n \<in> set ?all" for n
    using sorted_preorder_list_subtree [OF sorted that] nodes_preorder_unfold [of n] by simp
  have desc: "\<forall>n\<in>set ?all. \<forall>d\<in>set (preorder_list (Node.Nodes n)). Order n < Order d"
    using sub by auto
  have sibs: "\<forall>n\<in>set ?all. siblings_ordered (Node.Nodes n)"
    using sub by (auto intro: sorted_siblings_ordered)
  have roots: "siblings_ordered (NodeList.Nodes nl)"
    using sorted by (rule sorted_siblings_ordered)
  show ?thesis
    using orders len total dist desc sibs roots by simp
qed

theorem order_is_preorder_count_witness:
  "\<exists>nl totalNodeCount h.
     newSparseNodeList Inr go_growcap letters_dsc False = Inr (nl, totalNodeCount, h) \<and>
     length (levels_list (Cdsc.Nested letters_dsc)) < 2 ^ 64 \<and>
     map (unat \<circ> Order) (preorder_list (NodeList.Nodes nl)) = [1, 2] \<and>
     unat totalNodeCount = 2 \<and>
     length (preorder_list (NodeList.Nodes nl)) = 2 \<and>
     siblings_ordered (NodeList.Nodes nl)"
proof -
  have small: "length (levels_list (Cdsc.Nested letters_dsc)) < 2 ^ 64"
    by (simp add: letters_dsc_def levels_list_def)
  show ?thesis
    using order_is_preorder_count [OF letters_full small] small
    by (simp add: letters_full preorder_list_def)
qed

section \<open>What a node has from the moment it is built\<close>

text \<open>A property that every node has from the moment it is built.\<close>

lemma NewNode_nested_all_nodes:
  fixes good :: "Node \<Rightarrow> bool" and marshal :: "'p \<Rightarrow> error + string"
  assumes built: "\<And>(xmlname :: Name) attrlevel attrotherlevel cdid cscopecontent parentIDs counter
       (header :: Header) html nodes.
       NewHeader cdid sparse = Inr header \<Longrightarrow>
       scope_html marshal cscopecontent sparse = Inr html \<Longrightarrow>
       good (Node (if sparse then '''' else Local xmlname) (word_of_nat (len parentIDs + 1))
              attrlevel attrotherlevel parentIDs counter header html nodes)"
    and run: "NewNode_nested marshal growcap cs parentIDs sparse st [] = Inr (ns, st')"
  shows "\<forall>x\<in>set (preorder_list ns). good x"
  using run
proof (rule NewNode_nested_success
    [where P = "\<lambda>c p s n s'. \<forall>x\<in>set (nodes_preorder n). good x"
       and Q = "\<lambda>cs p s ns s'. \<forall>x\<in>set (preorder_list ns). good x", rotated -1])
  fix xmlname :: Name and attrlevel attrotherlevel cdid cscopecontent
    and nested :: "'p Clevel list"
    and parentIDs counter h and header :: Header and html nodes st'
  let ?p = "fst (go_append growcap parentIDs (InventoryNumber header) h)"
  let ?h = "snd (go_append growcap parentIDs (InventoryNumber header) h)"
  assume "NewHeader cdid sparse = Inr header" "scope_html marshal cscopecontent sparse = Inr html"
    and "\<forall>x\<in>set (preorder_list nodes). good x"
  then show "\<forall>x\<in>set (nodes_preorder
       (Node (if sparse then '''' else Local xmlname) (word_of_nat (len parentIDs + 1))
              attrlevel attrotherlevel parentIDs (counter + 1) header html nodes)). good x"
    using built [of cdid header cscopecontent html xmlname parentIDs attrlevel attrotherlevel
        "counter + 1" nodes]
    by (simp add: nodes_preorder_Node del: nodes_preorder.simps)
next
  show "\<forall>x\<in>set (preorder_list []). good x" for parentIDs :: slice and st :: state
    by (simp add: preorder_list_Nil)
next
  show "\<forall>x\<in>set (preorder_list (n # ns)). good x"
    if "\<forall>x\<in>set (nodes_preorder n). good x" and "\<forall>x\<in>set (preorder_list ns). good x"
    for n ns
    using that by (auto simp: preorder_list_Cons)
qed

lemma dsc_loop_all_nodes:
  fixes good :: "Node \<Rightarrow> bool" and marshal :: "'p \<Rightarrow> error + string"
  assumes built: "\<And>(xmlname :: Name) attrlevel attrotherlevel cdid cscopecontent parentIDs counter
       (header :: Header) html nodes.
       NewHeader cdid sparse = Inr header \<Longrightarrow>
       scope_html marshal cscopecontent sparse = Inr html \<Longrightarrow>
       good (Node (if sparse then '''' else Local xmlname) (word_of_nat (len parentIDs + 1))
              attrlevel attrotherlevel parentIDs counter header html nodes)"
    and run: "dsc_loop marshal growcap cs sparse st [] = Inr (ns, st')"
  shows "\<forall>x\<in>set (preorder_list ns). good x"
  using run
proof (rule dsc_loop_success_induct
    [where R = "\<lambda>c s n s'. \<forall>x\<in>set (nodes_preorder n). good x"
       and S = "\<lambda>cs s ns s'. \<forall>x\<in>set (preorder_list ns). good x", rotated -1])
  fix xmlname :: Name and attrlevel attrotherlevel cdid cscopecontent
    and nested :: "'p Clevel list"
    and counter :: "64 word" and h :: heap and header :: Header and html nodes st'
  assume hd: "NewHeader cdid sparse = Inr header"
    and sc: "scope_html marshal cscopecontent sparse = Inr html"
    and nested: "NewNode_nested marshal growcap nested (Slice (length h) 1 1) sparse
           (counter + 1, h @ [[InventoryNumber header]]) [] = Inr (nodes, st')"
  have "\<forall>x\<in>set (preorder_list nodes). good x"
    using built nested by (rule NewNode_nested_all_nodes)
  moreover have "good (Node (if sparse then '''' else Local xmlname) 1
              attrlevel attrotherlevel nil_slice (counter + 1) header html nodes)"
    using built [OF hd sc, of xmlname nil_slice attrlevel attrotherlevel "counter + 1" nodes]
    by (simp add: nil_slice_def)
  ultimately show "\<forall>x\<in>set (nodes_preorder
       (Node (if sparse then '''' else Local xmlname) 1
              attrlevel attrotherlevel nil_slice (counter + 1) header html nodes)). good x"
    by (simp add: nodes_preorder_Node del: nodes_preorder.simps)
next
  show "\<forall>x\<in>set (preorder_list []). good x" for st :: state
    by (simp add: preorder_list_Nil)
next
  show "\<forall>x\<in>set (preorder_list (n # ns)). good x"
    if "\<forall>x\<in>set (nodes_preorder n). good x" and "\<forall>x\<in>set (preorder_list ns). good x"
    for n ns
    using that by (auto simp: preorder_list_Cons)
qed

lemma newSparseNodeList_all_nodes:
  fixes good :: "Node \<Rightarrow> bool" and marshal :: "'p \<Rightarrow> error + string"
  assumes built: "\<And>(xmlname :: Name) attrlevel attrotherlevel cdid cscopecontent parentIDs counter
       (header :: Header) html nodes.
       NewHeader cdid sparse = Inr header \<Longrightarrow>
       scope_html marshal cscopecontent sparse = Inr html \<Longrightarrow>
       good (Node (if sparse then '''' else Local xmlname) (word_of_nat (len parentIDs + 1))
              attrlevel attrotherlevel parentIDs counter header html nodes)"
    and run: "newSparseNodeList marshal growcap dsc sparse = Inr (nl, totalNodeCount, h)"
  shows "\<forall>x\<in>set (preorder_list (NodeList.Nodes nl)). good x"
proof -
  have "dsc_loop marshal growcap (Cdsc.Nested dsc) sparse (0, []) [] =
          Inr (NodeList.Nodes nl, (totalNodeCount, h))"
    using run unfolding newSparseNodeList_Inr by blast
  with built show ?thesis
    by (rule dsc_loop_all_nodes)
qed

text \<open>
  C7. Every node of a sparse conversion has an empty tag, no identifiers, empty markup and
  an empty physical description, whatever the component carries; its header has no dates
  at all, so in particular none of the direct dates.
\<close>

theorem sparse_omission:
  assumes "NewSparseNodeList marshal growcap dsc = Inr (nl, totalNodeCount, h)"
  shows "\<forall>n\<in>set (preorder_list (NodeList.Nodes nl)).
           CTag n = '''' \<and> Header.ID (Header n) = [] \<and> HTML n = '''' \<and>
           Physdesc (Header n) = '''' \<and> Header.Date (Header n) = []"
proof (rule newSparseNodeList_all_nodes [where sparse = True])
  show "newSparseNodeList marshal growcap dsc True = Inr (nl, totalNodeCount, h)"
    using assms by (simp add: NewSparseNodeList_def)
next
  fix xmlname :: Name and attrlevel attrotherlevel cdid
    and cscopecontent :: "'a Cscopecontent option"
    and parentIDs counter and header :: Header and html nodes
  assume "NewHeader cdid True = Inr header" "scope_html marshal cscopecontent True = Inr html"
  then show "CTag (Node (if True then '''' else Local xmlname) (word_of_nat (len parentIDs + 1))
              attrlevel attrotherlevel parentIDs counter header html nodes) = '''' \<and>
       Header.ID (Header (Node (if True then '''' else Local xmlname) (word_of_nat (len parentIDs + 1))
              attrlevel attrotherlevel parentIDs counter header html nodes)) = [] \<and>
       HTML (Node (if True then '''' else Local xmlname) (word_of_nat (len parentIDs + 1))
              attrlevel attrotherlevel parentIDs counter header html nodes) = '''' \<and>
       Physdesc (Header (Node (if True then '''' else Local xmlname) (word_of_nat (len parentIDs + 1))
              attrlevel attrotherlevel parentIDs counter header html nodes)) = '''' \<and>
       Header.Date (Header (Node (if True then '''' else Local xmlname) (word_of_nat (len parentIDs + 1))
              attrlevel attrotherlevel parentIDs counter header html nodes)) = []"
    by (auto simp: NewHeader_eq scope_html_def split: option.splits)
qed

theorem sparse_omission_witness:
  "\<exists>nl totalNodeCount h.
     NewSparseNodeList Inr go_growcap minutes_dsc = Inr (nl, totalNodeCount, h) \<and>
     length (NodeList.Nodes nl) = 1 \<and>
     (\<forall>n\<in>set (preorder_list (NodeList.Nodes nl)).
           CTag n = '''' \<and> Header.ID (Header n) = [] \<and> HTML n = '''' \<and>
           Physdesc (Header n) = '''' \<and> Header.Date (Header n) = [])"
  using sparse_omission [OF minutes_sparse] minutes_sparse
  by simp

section \<open>Depth and the length of the parent identifiers\<close>

lemma heap_le_refl: "heap_le h h"
  by (simp add: heap_le_def)

lemma heap_le_trans: "heap_le h1 h2 \<Longrightarrow> heap_le h2 h3 \<Longrightarrow> heap_le h1 h3"
  by (auto simp: heap_le_def)

lemma wf_slice_mono: "wf_slice h s \<Longrightarrow> heap_le h h' \<Longrightarrow> wf_slice h' s"
  by (auto simp: wf_slice_def heap_le_def)

lemma slices_wf_mono: "slices_wf h ns \<Longrightarrow> heap_le h h' \<Longrightarrow> slices_wf h' ns"
  by (auto simp: slices_wf_def intro: wf_slice_mono)

lemma wf_slice_length: "wf_slice h s \<Longrightarrow> length (slice_elems h s) = len s"
  by (auto simp: wf_slice_def slice_elems_def)

lemma go_append_wf:
  assumes "wf_slice h s"
  shows "wf_slice (snd (go_append growcap s x h)) (fst (go_append growcap s x h))"
    and "heap_le h (snd (go_append growcap s x h))"
proof -
  show "wf_slice (snd (go_append growcap s x h)) (fst (go_append growcap s x h))"
    using assms
    by (auto simp: go_append_def wf_slice_def Let_def nth_append nth_list_update)
  show "heap_le h (snd (go_append growcap s x h))"
    using assms
    by (auto simp: go_append_def wf_slice_def heap_le_def Let_def nth_append nth_list_update)
qed

lemma slices_wf_Nil: "slices_wf h []"
  by (simp add: slices_wf_def preorder_list_Nil)

lemma slices_wf_Cons:
  "slices_wf h (n # ns) \<longleftrightarrow> slices_wf h [n] \<and> slices_wf h ns"
  by (auto simp: slices_wf_def preorder_list_Cons preorder_list_Nil)

lemma slices_wf_Node:
  "slices_wf h [Node ctag depth type subtype parentIDs order header html nodes] \<longleftrightarrow>
     wf_slice h parentIDs \<and> slices_wf h nodes"
  by (simp add: slices_wf_def preorder_list_Cons preorder_list_Nil nodes_preorder_Node
      del: nodes_preorder.simps)

lemma NewNode_nested_wf:
  assumes "NewNode_nested marshal growcap cs parentIDs sparse st [] = Inr (ns, st')"
  shows "wf_slice (snd st) parentIDs \<longrightarrow> heap_le (snd st) (snd st') \<and> slices_wf (snd st') ns"
  using assms
proof (rule NewNode_nested_success
    [where P = "\<lambda>c p s n s'. wf_slice (snd s) p \<longrightarrow> heap_le (snd s) (snd s') \<and> slices_wf (snd s') [n]"
       and Q = "\<lambda>cs p s ns s'. wf_slice (snd s) p \<longrightarrow> heap_le (snd s) (snd s') \<and> slices_wf (snd s') ns",
     rotated -1])
  fix xmlname :: Name and attrlevel attrotherlevel cdid cscopecontent
    and nested :: "'a Clevel list"
    and parentIDs and counter :: "64 word" and h :: heap and header :: Header
    and html nodes and st' :: state
  let ?p = "fst (go_append growcap parentIDs (InventoryNumber header) h)"
  let ?h = "snd (go_append growcap parentIDs (InventoryNumber header) h)"
  assume IH: "wf_slice (snd (counter + 1, ?h)) ?p \<longrightarrow>
       heap_le (snd (counter + 1, ?h)) (snd st') \<and> slices_wf (snd st') nodes"
  show "wf_slice (snd (counter, h)) parentIDs \<longrightarrow>
       heap_le (snd (counter, h)) (snd st') \<and>
       slices_wf (snd st')
         [Node (if sparse then '''' else Local xmlname) (word_of_nat (len parentIDs + 1))
              attrlevel attrotherlevel parentIDs (counter + 1) header html nodes]"
  proof
    assume "wf_slice (snd (counter, h)) parentIDs"
    then have wf: "wf_slice h parentIDs" by simp
    have 1: "heap_le h ?h" and 2: "wf_slice ?h ?p"
      using go_append_wf [OF wf] by blast+
    have 3: "heap_le ?h (snd st')" and 4: "slices_wf (snd st') nodes"
      using IH 2 by simp_all
    have 5: "heap_le h (snd st')"
      using 1 3 by (rule heap_le_trans)
    show "heap_le (snd (counter, h)) (snd st') \<and>
       slices_wf (snd st')
         [Node (if sparse then '''' else Local xmlname) (word_of_nat (len parentIDs + 1))
              attrlevel attrotherlevel parentIDs (counter + 1) header html nodes]"
      using 4 5 wf_slice_mono [OF wf 5] by (simp add: slices_wf_Node)
  qed
next
  show "wf_slice (snd st) parentIDs \<longrightarrow> heap_le (snd st) (snd st) \<and> slices_wf (snd st) []"
    for parentIDs and st :: state
    by (simp add: heap_le_refl slices_wf_Nil)
next
  fix parentIDs and st st' st'' :: state and n ns
  assume P: "wf_slice (snd st) parentIDs \<longrightarrow> heap_le (snd st) (snd st') \<and> slices_wf (snd st') [n]"
    and Q: "wf_slice (snd st') parentIDs \<longrightarrow> heap_le (snd st') (snd st'') \<and> slices_wf (snd st'') ns"
  show "wf_slice (snd st) parentIDs \<longrightarrow> heap_le (snd st) (snd st'') \<and> slices_wf (snd st'') (n # ns)"
  proof
    assume wf: "wf_slice (snd st) parentIDs"
    then have 1: "heap_le (snd st) (snd st')" and 2: "slices_wf (snd st') [n]"
      using P by simp_all
    have "wf_slice (snd st') parentIDs"
      using wf 1 by (rule wf_slice_mono)
    then have 3: "heap_le (snd st') (snd st'')" and 4: "slices_wf (snd st'') ns"
      using Q by simp_all
    show "heap_le (snd st) (snd st'') \<and> slices_wf (snd st'') (n # ns)"
      using heap_le_trans [OF 1 3] slices_wf_mono [OF 2 3] 4 slices_wf_Cons [of "snd st''" n ns]
      by simp
  qed
qed

lemma dsc_loop_wf:
  assumes "dsc_loop marshal growcap cs sparse st [] = Inr (ns, st')"
  shows "heap_le (snd st) (snd st') \<and> slices_wf (snd st') ns"
  using assms
proof (rule dsc_loop_success_induct
    [where R = "\<lambda>c s n s'. heap_le (snd s) (snd s') \<and> slices_wf (snd s') [n]"
       and S = "\<lambda>cs s ns s'. heap_le (snd s) (snd s') \<and> slices_wf (snd s') ns", rotated -1])
  fix xmlname :: Name and attrlevel attrotherlevel cdid cscopecontent
    and nested :: "'a Clevel list"
    and counter :: "64 word" and h :: heap and header :: Header and html nodes st'
  let ?h = "h @ [[InventoryNumber header]]"
  assume nested: "NewNode_nested marshal growcap nested (Slice (length h) 1 1) sparse
           (counter + 1, ?h) [] = Inr (nodes, st')"
  have "wf_slice ?h (Slice (length h) 1 1)"
    by (simp add: wf_slice_def)
  then have 1: "heap_le ?h (snd st')" and 2: "slices_wf (snd st') nodes"
    using NewNode_nested_wf [OF nested] by simp_all
  have "heap_le h ?h"
    by (simp add: heap_le_def nth_append)
  then have "heap_le h (snd st')"
    using 1 by (rule heap_le_trans)
  then show "heap_le (snd (counter, h)) (snd st') \<and>
       slices_wf (snd st')
         [Node (if sparse then '''' else Local xmlname) 1
              attrlevel attrotherlevel nil_slice (counter + 1) header html nodes]"
    using 2 by (simp add: slices_wf_Node wf_slice_def nil_slice_def)
next
  show "heap_le (snd st) (snd st) \<and> slices_wf (snd st) []" for st :: state
    by (simp add: heap_le_refl slices_wf_Nil)
next
  fix st st' st'' :: state and n ns
  assume "heap_le (snd st) (snd st') \<and> slices_wf (snd st') [n]"
    and "heap_le (snd st') (snd st'') \<and> slices_wf (snd st'') ns"
  then show "heap_le (snd st) (snd st'') \<and> slices_wf (snd st'') (n # ns)"
    using slices_wf_Cons [of "snd st''" n ns]
    by (auto intro: heap_le_trans slices_wf_mono)
qed

lemma newSparseNodeList_wf:
  assumes "newSparseNodeList marshal growcap dsc sparse = Inr (nl, totalNodeCount, h)"
  shows "slices_wf h (NodeList.Nodes nl)"
proof -
  have "dsc_loop marshal growcap (Cdsc.Nested dsc) sparse (0, []) [] =
          Inr (NodeList.Nodes nl, (totalNodeCount, h))"
    using assms unfolding newSparseNodeList_Inr by blast
  from dsc_loop_wf [OF this] show ?thesis by simp
qed

lemma sint_of_nat32: "m < 2 ^ 31 \<Longrightarrow> sint (word_of_nat m :: 32 word) = int m"
  by (simp add: signed_of_nat signed_take_bit_int_eq_self)

lemma dsc_loop_roots:
  assumes "dsc_loop marshal growcap cs sparse st [] = Inr (ns, st')"
  shows "\<forall>n\<in>set ns. Depth n = 1 \<and> ParentIDs n = nil_slice"
  using assms
  by (rule dsc_loop_success_induct
      [where R = "\<lambda>c s n s'. Depth n = 1 \<and> ParentIDs n = nil_slice"
         and S = "\<lambda>cs s ns s'. \<forall>n\<in>set ns. Depth n = 1 \<and> ParentIDs n = nil_slice", rotated -1])
    simp_all

text \<open>
  C2. In the result of a successful conversion the depth of every node is the int32
  conversion of the length of its \<open>ParentIDs\<close> plus 1, which is that number itself as long
  as it is below \<open>2 ^ 31\<close>; every root-level node has depth 1 and no parent identifiers.
\<close>

theorem depth_is_chain_length_plus_one:
  assumes "newSparseNodeList marshal growcap dsc sparse = Inr (nl, totalNodeCount, h)"
  shows "(\<forall>n\<in>set (preorder_list (NodeList.Nodes nl)).
            Depth n = word_of_nat (length (slice_elems h (ParentIDs n)) + 1) \<and>
            (length (slice_elems h (ParentIDs n)) + 1 < 2 ^ 31 \<longrightarrow>
               sint (Depth n) = int (length (slice_elems h (ParentIDs n))) + 1)) \<and>
         (\<forall>n\<in>set (NodeList.Nodes nl). Depth n = 1 \<and> slice_elems h (ParentIDs n) = [])"
proof -
  have loop: "dsc_loop marshal growcap (Cdsc.Nested dsc) sparse (0, []) [] =
          Inr (NodeList.Nodes nl, (totalNodeCount, h))"
    using assms unfolding newSparseNodeList_Inr by blast
  have len: "\<forall>n\<in>set (preorder_list (NodeList.Nodes nl)).
               Depth n = word_of_nat (len (ParentIDs n) + 1)"
    by (rule newSparseNodeList_all_nodes [OF _ assms]) simp
  have wf: "\<forall>n\<in>set (preorder_list (NodeList.Nodes nl)).
              length (slice_elems h (ParentIDs n)) = len (ParentIDs n)"
    using newSparseNodeList_wf [OF assms] by (simp add: slices_wf_def wf_slice_length)
  have depth: "\<forall>n\<in>set (preorder_list (NodeList.Nodes nl)).
            Depth n = word_of_nat (length (slice_elems h (ParentIDs n)) + 1)"
    using len wf by simp
  have signed: "\<forall>n\<in>set (preorder_list (NodeList.Nodes nl)).
            length (slice_elems h (ParentIDs n)) + 1 < 2 ^ 31 \<longrightarrow>
               sint (Depth n) = int (length (slice_elems h (ParentIDs n))) + 1"
  proof (intro ballI impI)
    fix n
    assume n: "n \<in> set (preorder_list (NodeList.Nodes nl))"
      and small: "length (slice_elems h (ParentIDs n)) + 1 < 2 ^ 31"
    have "Depth n = word_of_nat (length (slice_elems h (ParentIDs n)) + 1)"
      using depth n by blast
    then have "sint (Depth n) = int (length (slice_elems h (ParentIDs n)) + 1)"
      using sint_of_nat32 [OF small] by simp
    then show "sint (Depth n) = int (length (slice_elems h (ParentIDs n))) + 1"
      by simp
  qed
  have roots: "\<forall>n\<in>set (NodeList.Nodes nl). Depth n = 1 \<and> slice_elems h (ParentIDs n) = []"
    using dsc_loop_roots [OF loop] by (simp add: slice_elems_def nil_slice_def)
  show ?thesis
    using depth signed roots by blast
qed

theorem depth_is_chain_length_plus_one_witness:
  "\<exists>nl totalNodeCount h.
     newSparseNodeList Inr go_growcap letters_dsc False = Inr (nl, totalNodeCount, h) \<and>
     map (\<lambda>n. (sint (Depth n), slice_elems h (ParentIDs n))) (preorder_list (NodeList.Nodes nl)) =
       [(1, []), (2, [''S1''])] \<and>
     (\<forall>n\<in>set (preorder_list (NodeList.Nodes nl)).
        length (slice_elems h (ParentIDs n)) + 1 < 2 ^ 31 \<and>
        sint (Depth n) = int (length (slice_elems h (ParentIDs n))) + 1)"
  using depth_is_chain_length_plus_one [OF letters_full]
  by (simp add: letters_full preorder_list_def slice_elems_def nil_slice_def)

section \<open>The two modes\<close>

lemma NewNode_nested_mode:
  assumes "NewNode_nested marshal growcap cs parentIDs False st [] = Inr (ns, st')"
  shows "\<exists>ns'. NewNode_nested marshal growcap cs parentIDs True st [] = Inr (ns', st') \<and>
           (\<forall>h. map (skeleton h) ns' = map (skeleton h) ns)"
  using assms
proof (rule NewNode_nested_success
    [where P = "\<lambda>c p s n s'. \<exists>n'. NewNode marshal growcap c p True s = Inr (n', s') \<and>
                   (\<forall>h. skeleton h n' = skeleton h n)"
       and Q = "\<lambda>cs p s ns s'. \<exists>ns'. NewNode_nested marshal growcap cs p True s [] = Inr (ns', s') \<and>
                   (\<forall>h. map (skeleton h) ns' = map (skeleton h) ns)",
     rotated -1])
  fix xmlname :: Name and attrlevel attrotherlevel cdid cscopecontent
    and nested :: "'a Clevel list"
    and parentIDs and counter :: "64 word" and h :: heap and header :: Header
    and html nodes and st' :: state
  let ?p = "fst (go_append growcap parentIDs (InventoryNumber header) h)"
  let ?h = "snd (go_append growcap parentIDs (InventoryNumber header) h)"
  assume hd: "NewHeader cdid False = Inr header"
    and Q: "\<exists>ns'. NewNode_nested marshal growcap nested ?p True (counter + 1, ?h) [] = Inr (ns', st') \<and>
                   (\<forall>h. map (skeleton h) ns' = map (skeleton h) nodes)"
  obtain header' where hd': "NewHeader cdid True = Inr header'"
    using NewHeader_total by blast
  have inv: "InventoryNumber header' = InventoryNumber header"
    using hd' hd by (rule NewHeader_InventoryNumber_mode)
  obtain nodes' where
    run: "NewNode_nested marshal growcap nested ?p True (counter + 1, ?h) [] = Inr (nodes', st')" and
    sk: "\<forall>h. map (skeleton h) nodes' = map (skeleton h) nodes"
    using Q by blast
  have sc: "scope_html marshal cscopecontent True = Inr ''''"
    by (simp add: scope_html_def split: option.splits)
  let ?n' = "Node (if True then '''' else Local xmlname) (word_of_nat (len parentIDs + 1))
              attrlevel attrotherlevel parentIDs (counter + 1) header' '''' nodes'"
  have "NewNode marshal growcap (Clevel xmlname attrlevel attrotherlevel cdid cscopecontent nested)
          parentIDs True (counter, h) = Inr (?n', st')"
    unfolding NewNode_Inr using hd' sc run inv by simp
  moreover have "\<forall>h. skeleton h ?n' =
      skeleton h (Node (if False then '''' else Local xmlname) (word_of_nat (len parentIDs + 1))
              attrlevel attrotherlevel parentIDs (counter + 1) header html nodes)"
    using sk inv by simp
  ultimately show "\<exists>n'. NewNode marshal growcap
         (Clevel xmlname attrlevel attrotherlevel cdid cscopecontent nested) parentIDs True
         (counter, h) = Inr (n', st') \<and>
       (\<forall>h. skeleton h n' =
          skeleton h (Node (if False then '''' else Local xmlname) (word_of_nat (len parentIDs + 1))
              attrlevel attrotherlevel parentIDs (counter + 1) header html nodes))"
    by blast
next
  show "\<exists>ns'. NewNode_nested marshal growcap [] parentIDs True st [] = Inr (ns', st) \<and>
          (\<forall>h. map (skeleton h) ns' = map (skeleton h) [])" for parentIDs st
    by simp
next
  fix c :: "'a Clevel" and cs parentIDs and st st' st'' :: state and n ns
  assume "\<exists>n'. NewNode marshal growcap c parentIDs True st = Inr (n', st') \<and>
                   (\<forall>h. skeleton h n' = skeleton h n)"
    and "\<exists>ns'. NewNode_nested marshal growcap cs parentIDs True st' [] = Inr (ns', st'') \<and>
                   (\<forall>h. map (skeleton h) ns' = map (skeleton h) ns)"
  then obtain n' ns' where
    1: "NewNode marshal growcap c parentIDs True st = Inr (n', st')" and
    2: "\<forall>h. skeleton h n' = skeleton h n" and
    3: "NewNode_nested marshal growcap cs parentIDs True st' [] = Inr (ns', st'')" and
    4: "\<forall>h. map (skeleton h) ns' = map (skeleton h) ns"
    by blast
  have "NewNode_nested marshal growcap (c # cs) parentIDs True st [] = Inr (n' # ns', st'')"
    unfolding NewNode_nested_Cons_Inr using 1 3 by blast
  then show "\<exists>ns'. NewNode_nested marshal growcap (c # cs) parentIDs True st [] = Inr (ns', st'') \<and>
          (\<forall>h. map (skeleton h) ns' = map (skeleton h) (n # ns))"
    using 2 4 by auto
qed

lemma dsc_loop_mode:
  assumes "dsc_loop marshal growcap cs False st [] = Inr (ns, st')"
  shows "\<exists>ns'. dsc_loop marshal growcap cs True st [] = Inr (ns', st') \<and>
           (\<forall>h. map (skeleton h) ns' = map (skeleton h) ns)"
  using assms
proof (rule dsc_loop_success_induct
    [where R = "\<lambda>c s n s'. \<exists>n'. Cc01_NewNode marshal growcap c True s = Inr (n', s') \<and>
                   (\<forall>h. skeleton h n' = skeleton h n)"
       and S = "\<lambda>cs s ns s'. \<exists>ns'. dsc_loop marshal growcap cs True s [] = Inr (ns', s') \<and>
                   (\<forall>h. map (skeleton h) ns' = map (skeleton h) ns)",
     rotated -1])
  fix xmlname :: Name and attrlevel attrotherlevel cdid cscopecontent
    and nested :: "'a Clevel list"
    and counter :: "64 word" and h :: heap and header :: Header
    and html nodes and st' :: state
  assume hd: "NewHeader cdid False = Inr header"
    and nested: "NewNode_nested marshal growcap nested (Slice (length h) 1 1) False
           (counter + 1, h @ [[InventoryNumber header]]) [] = Inr (nodes, st')"
  obtain header' where hd': "NewHeader cdid True = Inr header'"
    using NewHeader_total by blast
  have inv: "InventoryNumber header' = InventoryNumber header"
    using hd' hd by (rule NewHeader_InventoryNumber_mode)
  obtain nodes' where
    run: "NewNode_nested marshal growcap nested (Slice (length h) 1 1) True
           (counter + 1, h @ [[InventoryNumber header]]) [] = Inr (nodes', st')" and
    sk: "\<forall>h. map (skeleton h) nodes' = map (skeleton h) nodes"
    using NewNode_nested_mode [OF nested] by blast
  have sc: "scope_html marshal cscopecontent True = Inr ''''"
    by (simp add: scope_html_def split: option.splits)
  let ?n' = "Node (if True then '''' else Local xmlname) 1
              attrlevel attrotherlevel nil_slice (counter + 1) header' '''' nodes'"
  have "Cc01_NewNode marshal growcap (Clevel xmlname attrlevel attrotherlevel cdid cscopecontent nested)
          True (counter, h) = Inr (?n', st')"
    unfolding Cc01_NewNode_Inr using hd' sc run inv by simp
  moreover have "\<forall>h. skeleton h ?n' =
      skeleton h (Node (if False then '''' else Local xmlname) 1
              attrlevel attrotherlevel nil_slice (counter + 1) header html nodes)"
    using sk inv by simp
  ultimately show "\<exists>n'. Cc01_NewNode marshal growcap
         (Clevel xmlname attrlevel attrotherlevel cdid cscopecontent nested) True
         (counter, h) = Inr (n', st') \<and>
       (\<forall>h. skeleton h n' =
          skeleton h (Node (if False then '''' else Local xmlname) 1
              attrlevel attrotherlevel nil_slice (counter + 1) header html nodes))"
    by blast
next
  show "\<exists>ns'. dsc_loop marshal growcap [] True st [] = Inr (ns', st) \<and>
          (\<forall>h. map (skeleton h) ns' = map (skeleton h) [])" for st
    by simp
next
  fix c :: "'a Clevel" and cs and st st' st'' :: state and n ns
  assume "\<exists>n'. Cc01_NewNode marshal growcap c True st = Inr (n', st') \<and>
                   (\<forall>h. skeleton h n' = skeleton h n)"
    and "\<exists>ns'. dsc_loop marshal growcap cs True st' [] = Inr (ns', st'') \<and>
                   (\<forall>h. map (skeleton h) ns' = map (skeleton h) ns)"
  then obtain n' ns' where
    1: "Cc01_NewNode marshal growcap c True st = Inr (n', st')" and
    2: "\<forall>h. skeleton h n' = skeleton h n" and
    3: "dsc_loop marshal growcap cs True st' [] = Inr (ns', st'')" and
    4: "\<forall>h. map (skeleton h) ns' = map (skeleton h) ns"
    by blast
  have "dsc_loop marshal growcap (c # cs) True st [] = Inr (n' # ns', st'')"
    unfolding dsc_loop_Cons_Inr using 1 3 by blast
  then show "\<exists>ns'. dsc_loop marshal growcap (c # cs) True st [] = Inr (ns', st'') \<and>
          (\<forall>h. map (skeleton h) ns' = map (skeleton h) (n # ns))"
    using 2 4 by auto
qed

text \<open>
  C4. When the full and the sparse conversion of a description both succeed, the two
  results have the same tree shape, and corresponding nodes have the same order, depth,
  parent identifiers (read through the store of their own run), level type, level subtype
  and inventory number; the counts, the list type and the root labels are the same too.
  What may differ is the tag, the markup, and the header's identifiers, physical
  description, labels, dates and date-as-label flag.
\<close>

theorem mode_invariant_shape:
  assumes "NewNodeList marshal growcap dsc = Inr (full, count_full, h_full)"
    and "NewSparseNodeList marshal growcap dsc = Inr (sparse, count_sparse, h_sparse)"
  shows "map (skeleton h_sparse) (NodeList.Nodes sparse) =
           map (skeleton h_full) (NodeList.Nodes full) \<and>
         count_sparse = count_full \<and>
         NodeList.Type sparse = NodeList.Type full \<and>
         NodeList.Label sparse = NodeList.Label full"
proof -
  have f: "dsc_loop marshal growcap (Cdsc.Nested dsc) False (0, []) [] =
          Inr (NodeList.Nodes full, (count_full, h_full))"
    and ftl: "NodeList.Type full = Cdsc.Attrtype dsc" "NodeList.Label full = map Head (Chead dsc)"
    using assms(1) unfolding NewNodeList_def newSparseNodeList_Inr
    by (blast, (metis NodeList.select_convs)+)
  have s: "dsc_loop marshal growcap (Cdsc.Nested dsc) True (0, []) [] =
          Inr (NodeList.Nodes sparse, (count_sparse, h_sparse))"
    and stl: "NodeList.Type sparse = Cdsc.Attrtype dsc" "NodeList.Label sparse = map Head (Chead dsc)"
    using assms(2) unfolding NewSparseNodeList_def newSparseNodeList_Inr
    by (blast, (metis NodeList.select_convs)+)
  obtain ns' where
    s': "dsc_loop marshal growcap (Cdsc.Nested dsc) True (0, []) [] = Inr (ns', (count_full, h_full))"
    and sk: "\<forall>h. map (skeleton h) ns' = map (skeleton h) (NodeList.Nodes full)"
    using dsc_loop_mode [OF f] by blast
  have "NodeList.Nodes sparse = ns'" "count_sparse = count_full" "h_sparse = h_full"
    using s s' by simp_all
  then show ?thesis
    using sk ftl stl by simp
qed

theorem mode_invariant_shape_witness:
  "\<exists>full count_full h_full sparse count_sparse h_sparse.
     NewNodeList Inr go_growcap letters_dsc = Inr (full, count_full, h_full) \<and>
     NewSparseNodeList Inr go_growcap letters_dsc = Inr (sparse, count_sparse, h_sparse) \<and>
     map (skeleton h_sparse) (NodeList.Nodes sparse) =
       [Skeleton 1 1 [] ''series'' '''' ''S1'' [Skeleton 2 2 [''S1''] ''file'' '''' '''' []]] \<and>
     map (skeleton h_sparse) (NodeList.Nodes sparse) = map (skeleton h_full) (NodeList.Nodes full) \<and>
     count_sparse = count_full \<and>
     NodeList.Type sparse = NodeList.Type full \<and>
     NodeList.Label sparse = NodeList.Label full"
proof -
  have f: "NewNodeList Inr go_growcap letters_dsc =
      Inr (fst (projr (newSparseNodeList Inr go_growcap letters_dsc False)), 2,
           [[''S1''], [''S1'', '''']])"
    by (simp add: NewNodeList_def letters_full)
  have s: "NewSparseNodeList Inr go_growcap letters_dsc =
      Inr (fst (projr (newSparseNodeList Inr go_growcap letters_dsc True)), 2,
           [[''S1''], [''S1'', '''']])"
    by (simp add: NewSparseNodeList_def letters_sparse)
  note same = mode_invariant_shape [OF f s]
  show ?thesis
    by (intro exI conjI, rule f, rule s, rule skeleton_example, rule same [THEN conjunct1],
        rule same [THEN conjunct2, THEN conjunct1],
        rule same [THEN conjunct2, THEN conjunct2, THEN conjunct1],
        rule same [THEN conjunct2, THEN conjunct2, THEN conjunct2])
qed

section \<open>Errors\<close>

lemma outcome_Inl:
  "outcome marshal sparse cs (Inl err) \<longleftrightarrow>
     (\<exists>x\<in>set cs. scope_html marshal (Cscopecontent x) sparse = Inl err)"
  by (simp add: outcome_def)

lemma outcome_Inr:
  "outcome marshal sparse cs (Inr v) \<longleftrightarrow>
     (\<forall>x\<in>set cs. \<not> isl (scope_html marshal (Cscopecontent x) sparse))"
  by (simp add: outcome_def)

lemma NewNode_nested_outcome_step:
  assumes head: "\<And>parentIDs st. outcome marshal sparse (levels_preorder c)
                   (NewNode marshal growcap c parentIDs sparse st)"
    and tail: "\<And>parentIDs st. outcome marshal sparse (levels_list cs)
                   (NewNode_nested marshal growcap cs parentIDs sparse st [])"
  shows "outcome marshal sparse (levels_list (c # cs))
           (NewNode_nested marshal growcap (c # cs) parentIDs sparse st [])"
proof (cases "NewNode marshal growcap c parentIDs sparse st")
  case (Inl err)
  then show ?thesis
    using head [of parentIDs st]
    by (auto simp: levels_list_Cons outcome_Inl)
next
  case (Inr r)
  obtain n st' where r: "r = (n, st')" by (cases r)
  have h: "outcome marshal sparse (levels_preorder c) (Inr r)"
    using head [of parentIDs st] Inr by simp
  show ?thesis
  proof (cases "NewNode_nested marshal growcap cs parentIDs sparse st' []")
    case (Inl err)
    then have "NewNode_nested marshal growcap (c # cs) parentIDs sparse st [] = Inl err"
      using Inr r NewNode_nested_acc [of marshal growcap cs parentIDs sparse st' "[n]"] by simp
    moreover have "\<exists>x\<in>set (levels_list cs). scope_html marshal (Cscopecontent x) sparse = Inl err"
      using tail [of parentIDs st'] Inl by (simp add: outcome_Inl)
    ultimately show ?thesis
      by (auto simp: levels_list_Cons outcome_Inl)
  next
    case Inr2: (Inr r')
    obtain ns st'' where r': "r' = (ns, st'')" by (cases r')
    have "NewNode_nested marshal growcap (c # cs) parentIDs sparse st [] = Inr (n # ns, st'')"
      using Inr r Inr2 r' NewNode_nested_acc [of marshal growcap cs parentIDs sparse st' "[n]"]
      by simp
    moreover have "outcome marshal sparse (levels_list cs) (Inr r')"
      using tail [of parentIDs st'] Inr2 by simp
    ultimately show ?thesis
      using h by (auto simp: levels_list_Cons outcome_Inr)
  qed
qed

lemma NewNode_outcome:
  "outcome marshal sparse (levels_preorder c) (NewNode marshal growcap c parentIDs sparse st)"
proof (induction c arbitrary: parentIDs st)
  case (Clevel xmlname attrlevel attrotherlevel cdid cscopecontent nested)
  have list: "outcome marshal sparse (levels_list cs)
                (NewNode_nested marshal growcap cs parentIDs sparse st [])"
    if "set cs \<subseteq> set nested" for cs parentIDs st
    using that
  proof (induction cs arbitrary: parentIDs st)
    case Nil
    show ?case by (simp add: levels_list_Nil outcome_Inr)
  next
    case (Cons c cs)
    show ?case
    proof (rule NewNode_nested_outcome_step)
      show "outcome marshal sparse (levels_preorder c)
              (NewNode marshal growcap c parentIDs sparse st)" for parentIDs st
        using Clevel.IH [of c] Cons.prems by simp
      show "outcome marshal sparse (levels_list cs)
              (NewNode_nested marshal growcap cs parentIDs sparse st [])" for parentIDs st
        using Cons.IH Cons.prems by simp
    qed
  qed
  obtain counter h where st: "st = (counter, h)" by (cases st)
  obtain header where hd: "NewHeader cdid sparse = Inr header"
    using NewHeader_total by blast
  let ?c = "Clevel xmlname attrlevel attrotherlevel cdid cscopecontent nested"
  show ?case
  proof (cases "scope_html marshal cscopecontent sparse")
    case (Inl err)
    then have "NewNode marshal growcap ?c parentIDs sparse st = Inl err"
      unfolding st NewNode_unfold using hd by simp
    then show ?thesis
      using Inl by (simp add: outcome_Inl)
  next
    case (Inr html)
    let ?run = "NewNode_nested marshal growcap nested
                  (fst (go_append growcap parentIDs (InventoryNumber header) h)) sparse
                  (counter + 1, snd (go_append growcap parentIDs (InventoryNumber header) h)) []"
    have sub: "outcome marshal sparse (levels_list nested) ?run"
      by (rule list) simp
    show ?thesis
    proof (cases ?run)
      case Inl2: (Inl err)
      then have "NewNode marshal growcap ?c parentIDs sparse st = Inl err"
        unfolding st NewNode_unfold using hd Inr by simp
      then show ?thesis
        using sub Inl2 by (simp add: outcome_Inl levels_preorder_Clevel del: levels_preorder.simps)
    next
      case Inr2: (Inr r)
      obtain nodes st' where r: "r = (nodes, st')" by (cases r)
      have "\<exists>v. NewNode marshal growcap ?c parentIDs sparse st = Inr v"
        unfolding st NewNode_unfold using hd Inr Inr2 r by simp
      then show ?thesis
        using sub Inr Inr2
        by (auto simp: outcome_Inr levels_preorder_Clevel simp del: levels_preorder.simps)
    qed
  qed
qed

lemma NewNode_nested_outcome:
  "outcome marshal sparse (levels_list cs)
     (NewNode_nested marshal growcap cs parentIDs sparse st [])"
proof (induction cs arbitrary: parentIDs st)
  case Nil
  show ?case by (simp add: levels_list_Nil outcome_Inr)
next
  case (Cons c cs)
  show ?case
    by (rule NewNode_nested_outcome_step) (rule NewNode_outcome, rule Cons.IH)
qed

lemma Cc01_NewNode_outcome:
  "outcome marshal sparse (levels_preorder c) (Cc01_NewNode marshal growcap c sparse st)"
proof -
  obtain xmlname attrlevel attrotherlevel cdid cscopecontent nested where
    c: "c = Clevel xmlname attrlevel attrotherlevel cdid cscopecontent nested"
    by (cases c)
  obtain counter h where st: "st = (counter, h)" by (cases st)
  obtain header where hd: "NewHeader cdid sparse = Inr header"
    using NewHeader_total by blast
  let ?run = "NewNode_nested marshal growcap nested (Slice (length h) 1 1) sparse
                (counter + 1, h @ [[InventoryNumber header]]) []"
  have sub: "outcome marshal sparse (levels_list nested) ?run"
    by (rule NewNode_nested_outcome)
  show ?thesis
  proof (cases "scope_html marshal cscopecontent sparse")
    case (Inl err)
    then have "Cc01_NewNode marshal growcap c sparse st = Inl err"
      unfolding c st Cc01_NewNode_unfold using hd by simp
    then show ?thesis
      using Inl unfolding c by (simp add: outcome_Inl)
  next
    case (Inr html)
    show ?thesis
    proof (cases ?run)
      case Inl2: (Inl err)
      then have "Cc01_NewNode marshal growcap c sparse st = Inl err"
        unfolding c st Cc01_NewNode_unfold using hd Inr by simp
      then show ?thesis
        using sub Inl2 unfolding c
        by (simp add: outcome_Inl levels_preorder_Clevel del: levels_preorder.simps)
    next
      case Inr2: (Inr r)
      obtain nodes st' where r: "r = (nodes, st')" by (cases r)
      have "\<exists>v. Cc01_NewNode marshal growcap c sparse st = Inr v"
        unfolding c st Cc01_NewNode_unfold using hd Inr Inr2 r by simp
      then show ?thesis
        using sub Inr Inr2 unfolding c
        by (auto simp: outcome_Inr levels_preorder_Clevel simp del: levels_preorder.simps)
    qed
  qed
qed

lemma dsc_loop_outcome:
  "outcome marshal sparse (levels_list cs) (dsc_loop marshal growcap cs sparse st [])"
proof (induction cs arbitrary: st)
  case Nil
  show ?case by (simp add: levels_list_Nil outcome_Inr)
next
  case (Cons c cs)
  have head: "outcome marshal sparse (levels_preorder c) (Cc01_NewNode marshal growcap c sparse st)"
    by (rule Cc01_NewNode_outcome)
  show ?case
  proof (cases "Cc01_NewNode marshal growcap c sparse st")
    case (Inl err)
    then show ?thesis
      using head by (auto simp: levels_list_Cons outcome_Inl)
  next
    case (Inr r)
    obtain n st' where r: "r = (n, st')" by (cases r)
    have tail: "outcome marshal sparse (levels_list cs) (dsc_loop marshal growcap cs sparse st' [])"
      by (rule Cons.IH)
    show ?thesis
    proof (cases "dsc_loop marshal growcap cs sparse st' []")
      case Inl2: (Inl err)
      then have "dsc_loop marshal growcap (c # cs) sparse st [] = Inl err"
        using Inr r dsc_loop_acc [of marshal growcap cs sparse st' "[n]"] by simp
      then show ?thesis
        using tail Inl2 by (auto simp: levels_list_Cons outcome_Inl)
    next
      case Inr2: (Inr r')
      obtain ns st'' where r': "r' = (ns, st'')" by (cases r')
      have "dsc_loop marshal growcap (c # cs) sparse st [] = Inr (n # ns, st'')"
        using Inr r Inr2 r' dsc_loop_acc [of marshal growcap cs sparse st' "[n]"] by simp
      then show ?thesis
        using head tail Inr Inr2 by (auto simp: levels_list_Cons outcome_Inr)
    qed
  qed
qed

lemma newSparseNodeList_outcome:
  "outcome marshal sparse (levels_list (Cdsc.Nested dsc))
     (newSparseNodeList marshal growcap dsc sparse)"
proof (cases "dsc_loop marshal growcap (Cdsc.Nested dsc) sparse (0, []) []")
  case (Inl err)
  then have "newSparseNodeList marshal growcap dsc sparse = Inl err"
    by (simp add: newSparseNodeList_def)
  then show ?thesis
    using dsc_loop_outcome [of marshal sparse "Cdsc.Nested dsc" growcap "(0, [])"] Inl
    by (simp add: outcome_Inl)
next
  case (Inr r)
  then have "\<exists>v. newSparseNodeList marshal growcap dsc sparse = Inr v"
    by (auto simp: newSparseNodeList_def split: prod.splits)
  then show ?thesis
    using dsc_loop_outcome [of marshal sparse "Cdsc.Nested dsc" growcap "(0, [])"] Inr
    by (auto simp: outcome_Inr)
qed

lemma scope_html_full_isl:
  "isl (scope_html marshal (Cscopecontent c) False) \<longleftrightarrow> marshal_fails marshal c"
  by (simp add: scope_html_def marshal_fails_def split: option.splits)

lemma scope_html_full_Inl:
  "scope_html marshal (Cscopecontent c) False = Inl err \<longleftrightarrow> marshal_error marshal c err"
  by (simp add: scope_html_def marshal_error_def split: option.splits)

lemma scope_html_sparse: "scope_html marshal cscopecontent True \<noteq> Inl err"
  by (simp add: scope_html_def split: option.splits)

text \<open>
  C8. The full conversion fails exactly when \<open>marshal\<close> fails on the scope-content block of
  some component of the tree, at any depth; the error it returns is the error \<open>marshal\<close>
  gave for one of the components, and a failed conversion returns the error alone, without
  a node list. No other step fails: the sparse conversion, which never serializes, always
  succeeds.
\<close>

theorem serialization_failure_aborts:
  "(isl (NewNodeList marshal growcap dsc) \<longleftrightarrow>
      (\<exists>c\<in>set (levels_list (Cdsc.Nested dsc)). marshal_fails marshal c)) \<and>
   (\<forall>err. NewNodeList marshal growcap dsc = Inl err \<longrightarrow>
      (\<exists>c\<in>set (levels_list (Cdsc.Nested dsc)). marshal_error marshal c err)) \<and>
   \<not> isl (NewSparseNodeList marshal growcap dsc)"
proof (intro conjI allI impI)
  show "isl (NewNodeList marshal growcap dsc) \<longleftrightarrow>
      (\<exists>c\<in>set (levels_list (Cdsc.Nested dsc)). marshal_fails marshal c)"
  proof (cases "newSparseNodeList marshal growcap dsc False")
    case (Inl err)
    then obtain c where "c \<in> set (levels_list (Cdsc.Nested dsc))"
      and "scope_html marshal (Cscopecontent c) False = Inl err"
      using newSparseNodeList_outcome [of marshal False dsc growcap]
      by (auto simp: outcome_Inl)
    then have "\<exists>c\<in>set (levels_list (Cdsc.Nested dsc)). marshal_fails marshal c"
      using scope_html_full_isl [of marshal c] by auto
    then show ?thesis
      using Inl by (simp add: NewNodeList_def)
  next
    case (Inr v)
    then have "\<forall>c\<in>set (levels_list (Cdsc.Nested dsc)). \<not> marshal_fails marshal c"
      using newSparseNodeList_outcome [of marshal False dsc growcap]
      by (simp add: outcome_Inr scope_html_full_isl)
    then show ?thesis
      using Inr by (simp add: NewNodeList_def)
  qed
  show "\<exists>c\<in>set (levels_list (Cdsc.Nested dsc)). marshal_error marshal c err"
    if "NewNodeList marshal growcap dsc = Inl err" for err
    using newSparseNodeList_outcome [of marshal False dsc growcap] that
    by (simp add: NewNodeList_def outcome_Inl scope_html_full_Inl)
  show "\<not> isl (NewSparseNodeList marshal growcap dsc)"
    using newSparseNodeList_outcome [of marshal True dsc growcap]
    by (cases "newSparseNodeList marshal growcap dsc True")
      (auto simp: NewSparseNodeList_def outcome_Inl scope_html_sparse)
qed

theorem serialization_failure_aborts_witness:
  "NewNodeList marshal_example go_growcap broken_dsc = Inl (Error ''xml: unsupported type'') \<and>
   (\<exists>c\<in>set (levels_list (Cdsc.Nested broken_dsc)).
      marshal_error marshal_example c (Error ''xml: unsupported type'')) \<and>
   \<not> isl (NewSparseNodeList marshal_example go_growcap broken_dsc)"
  using serialization_failure_aborts [of marshal_example go_growcap broken_dsc] broken_full
  by blast

section \<open>The parent identifiers in the returned tree\<close>

text \<open>
  C3 does not hold of the code. \<open>NewNode\<close> stores the slice it was handed in
  \<open>node.ParentIDs\<close> and then appends its own inventory number to that same slice; once the
  backing array has spare capacity the append writes in place, and every sibling writes
  the same cell. With the capacities of the Go runtime this happens from the fourth level
  on: in the description A > B > X > (P > Z, Q) the node Z is built with the parent
  identifiers A, B, X, P, and when Q is converted the last cell becomes Q. In the returned
  tree Z, a child of P, has the parent identifiers A, B, X, Q.
\<close>

theorem parentChain_overwritten_by_sibling:
  "result_skeleton (NewNodeList Inr go_growcap aliasing_dsc) =
     Inr ([Skeleton 1 1 [] ''file'' '''' ''A''
            [Skeleton 2 2 [''A''] ''file'' '''' ''B''
              [Skeleton 3 3 [''A'', ''B''] ''file'' '''' ''X''
                [Skeleton 4 4 [''A'', ''B'', ''X''] ''file'' '''' ''P''
                   [Skeleton 5 5 [''A'', ''B'', ''X'', ''Q''] ''file'' '''' ''Z'' []],
                 Skeleton 6 4 [''A'', ''B'', ''X''] ''file'' '''' ''Q'' []]]]], 6)"
  by (simp add: result_skeleton_def NewNodeList_def newSparseNodeList_def aliasing_dsc_def
      level_def title_did_def unitid_def NewHeader_eq inventory_type_def go_append_def
      slice_lit_def go_growcap_def slice_elems_def nil_slice_def)

end
